theory Spec2Isabelle
  imports Complex_Main
begin

section \<open>JavaScript strings and values\<close>

text \<open>
  A JavaScript string is a sequence of UTF-16 code units; a code unit is modelled as a
  natural number, so every string the gateway can see is covered. \<open>js\<close> turns an
  ASCII literal into such a string.
\<close>

type_synonym jsstring = "nat list"

definition js :: "string \<Rightarrow> jsstring" where
  "js s = map of_char s"

text \<open>
  Numbers are IEEE doubles in JavaScript. \<open>Fin r\<close> stands for the double nearest to the
  rational \<open>r\<close> (the rounding itself is not performed); \<open>NaN\<close> never reaches a value
  in the code modelled here.
\<close>

datatype jsnum = Fin rat | PosInf | NegInf

datatype jsval =
    Undefined
  | Null
  | Bool bool
  | Num jsnum
  | Str jsstring
  | Arr "jsval list"
  | Obj "(jsstring \<times> jsval) list"

datatype js_error = SyntaxError | TypeError

text \<open>
  ToBoolean. A number is falsy when its double is zero: a rational rounds to zero
  exactly when its magnitude is at most \<open>2^-1075\<close> (half the least subnormal).
\<close>

fun truthy :: "jsval \<Rightarrow> bool" where
  "truthy Undefined = False"
| "truthy Null = False"
| "truthy (Bool b) = b"
| "truthy (Num (Fin r)) = (\<bar>r\<bar> * 2 ^ 1075 > 1)"
| "truthy (Num PosInf) = True"
| "truthy (Num NegInf) = True"
| "truthy (Str s) = (s \<noteq> [])"
| "truthy (Arr xs) = True"
| "truthy (Obj es) = True"

text \<open>The operator \<open>a || b\<close> on values already computed.\<close>

definition js_or :: "jsval \<Rightarrow> jsval \<Rightarrow> jsval" where
  "js_or a b = (if truthy a then a else b)"

subsection \<open>String built-ins\<close>

text \<open>White space and line terminators, as \<open>String.prototype.trim\<close> strips them.\<close>

definition isWhiteSpace :: "nat \<Rightarrow> bool" where
  "isWhiteSpace c \<longleftrightarrow>
     c \<in> set [9, 10, 11, 12, 13, 32, 160, 5760, 8192, 8193, 8194, 8195, 8196, 8197,
              8198, 8199, 8200, 8201, 8202, 8232, 8233, 8239, 8287, 12288, 65279]"

definition String_trim :: "jsstring \<Rightarrow> jsstring" where
  "String_trim s = rev (dropWhile isWhiteSpace (rev (dropWhile isWhiteSpace s)))"

definition String_startsWith :: "jsstring \<Rightarrow> jsstring \<Rightarrow> bool" where
  "String_startsWith s p \<longleftrightarrow> take (length p) s = p"

text \<open>\<open>s.split(c)\<close> for a separator of one code unit.\<close>

fun split_on :: "nat \<Rightarrow> jsstring \<Rightarrow> jsstring list" where
  "split_on sep [] = [[]]"
| "split_on sep (c # cs) =
     (if c = sep then [] # split_on sep cs
      else (case split_on sep cs of
              [] \<Rightarrow> [[c]]
            | p # ps \<Rightarrow> (c # p) # ps))"

text \<open>\<open>s.split(sep)\<close> for a separator of several code units.\<close>

function String_split :: "jsstring \<Rightarrow> jsstring \<Rightarrow> jsstring list" where
  "String_split sep s =
     (if sep = [] then map (\<lambda>c. [c]) s
      else if s = [] then [[]]
      else if take (length sep) s = sep then [] # String_split sep (drop (length sep) s)
      else (case String_split sep (tl s) of
              [] \<Rightarrow> [[hd s]]
            | p # ps \<Rightarrow> (hd s # p) # ps))"
  by pat_completeness auto
termination
  by (relation "measure (\<lambda>(sep, s). length s)") auto

declare String_split.simps [simp del]

text \<open>Decimal digits of a natural number, as \<open>String(n)\<close> prints an array index.\<close>

fun dec :: "nat \<Rightarrow> jsstring" where
  "dec n = (if n < 10 then [48 + n] else dec (n div 10) @ [48 + n mod 10])"

declare dec.simps [simp del]

text \<open>
  A canonical array index: the decimal digits, without leading zero, of an integer
  below \<open>2^32 - 1\<close>.
\<close>

definition isDigit :: "nat \<Rightarrow> bool" where
  "isDigit c \<longleftrightarrow> 48 \<le> c \<and> c \<le> 57"

definition digitsValue :: "jsstring \<Rightarrow> nat" where
  "digitsValue ds = foldl (\<lambda>a c. 10 * a + (c - 48)) 0 ds"

definition arrayIndex :: "jsstring \<Rightarrow> nat option" where
  "arrayIndex k =
     (if k \<noteq> [] \<and> list_all isDigit k \<and> (hd k \<noteq> 48 \<or> length k = 1)
         \<and> digitsValue k < 4294967295
      then Some (digitsValue k) else None)"

section \<open>\<open>JSON.parse\<close>\<close>

text \<open>
  The built-in parser, after ECMA-404: a lexer producing tokens and a pushdown automaton
  over the tokens. \<open>None\<close> is the \<open>SyntaxError\<close> the built-in throws.
\<close>

datatype token = TLBrace | TRBrace | TLBrack | TRBrack | TComma | TColon | TLit jsval

definition hexValue :: "nat \<Rightarrow> nat option" where
  "hexValue c =
     (if 48 \<le> c \<and> c \<le> 57 then Some (c - 48)
      else if 97 \<le> c \<and> c \<le> 102 then Some (c - 87)
      else if 65 \<le> c \<and> c \<le> 70 then Some (c - 55)
      else None)"

definition hex4 :: "nat \<Rightarrow> nat \<Rightarrow> nat \<Rightarrow> nat \<Rightarrow> nat option" where
  "hex4 a b c d =
     (case (hexValue a, hexValue b, hexValue c, hexValue d) of
        (Some w, Some x, Some y, Some z) \<Rightarrow> Some (4096 * w + 256 * x + 16 * y + z)
      | _ \<Rightarrow> None)"

text \<open>The character a one-letter escape stands for: \<open>\" \\ \/ \b \f \n \r \t\<close>.\<close>

definition unescape :: "nat \<Rightarrow> nat option" where
  "unescape e =
     (if e = 34 then Some 34 else if e = 92 then Some 92 else if e = 47 then Some 47
      else if e = 98 then Some 8 else if e = 102 then Some 12 else if e = 110 then Some 10
      else if e = 114 then Some 13 else if e = 116 then Some 9 else None)"

text \<open>
  The body of a string literal, after its opening quote: the decoded string and the
  input after the closing quote.
\<close>

fun lexString :: "jsstring \<Rightarrow> jsstring \<Rightarrow> (jsstring \<times> jsstring) option" where
  "lexString acc [] = None"
| "lexString acc (c # cs) =
     (if c = 34 then Some (rev acc, cs)
      else if c = 92 then
        (case cs of
           [] \<Rightarrow> None
         | e # cs1 \<Rightarrow>
             if e = 117 then
               (case cs1 of
                  h1 # h2 # h3 # h4 # cs2 \<Rightarrow>
                    (case hex4 h1 h2 h3 h4 of
                       None \<Rightarrow> None
                     | Some u \<Rightarrow> lexString (u # acc) cs2)
                | _ \<Rightarrow> None)
             else
               (case unescape e of
                  None \<Rightarrow> None
                | Some d \<Rightarrow> lexString (d # acc) cs1))
      else if c < 32 then None
      else lexString (c # acc) cs)"

text \<open>The value \<open>m * 10^e\<close> of a decimal literal.\<close>

definition scale10 :: "rat \<Rightarrow> int \<Rightarrow> rat" where
  "scale10 m e = (if 0 \<le> e then m * 10 ^ nat e else m / 10 ^ nat (- e))"

text \<open>
  An exponent part \<open>e\<close>, \<open>e+\<close> or \<open>e-\<close> followed by digits, if the input starts
  with one: the exponent and the input after it. The exponent is \<open>0\<close> when there
  is no exponent part; \<open>None\<close> when the letter is not followed by digits.
\<close>

definition lexExponent :: "jsstring \<Rightarrow> (int \<times> jsstring) option" where
  "lexExponent cs =
     (case cs of
        [] \<Rightarrow> Some (0, cs)
      | c # r \<Rightarrow>
          if c = 101 \<or> c = 69 then
            (let neg = (r \<noteq> [] \<and> hd r = 45);
                 r1 = (if r \<noteq> [] \<and> (hd r = 45 \<or> hd r = 43) then tl r else r);
                 ds = takeWhile isDigit r1
             in if ds = [] then None
                else Some ((if neg then - int (digitsValue ds) else int (digitsValue ds)),
                           dropWhile isDigit r1))
          else Some (0, cs))"

text \<open>A fraction part \<open>.digits\<close>, if the input starts with a dot.\<close>

definition lexFraction :: "jsstring \<Rightarrow> (jsstring \<times> jsstring) option" where
  "lexFraction cs =
     (case cs of
        [] \<Rightarrow> Some ([], cs)
      | c # r \<Rightarrow>
          if c = 46 then
            (if takeWhile isDigit r = [] then None
             else Some (takeWhile isDigit r, dropWhile isDigit r))
          else Some ([], cs))"

text \<open>A JSON number: \<open>-? (0 | [1-9][0-9]*) (.[0-9]+)? ([eE][+-]?[0-9]+)?\<close>.\<close>

definition lexNumber :: "jsstring \<Rightarrow> (rat \<times> jsstring) option" where
  "lexNumber cs =
     (let neg = (cs \<noteq> [] \<and> hd cs = 45);
          cs1 = (if neg then tl cs else cs);
          ds = takeWhile isDigit cs1
      in if ds = [] \<or> (hd ds = 48 \<and> length ds > 1) then None
         else (case lexFraction (dropWhile isDigit cs1) of
                 None \<Rightarrow> None
               | Some (fs, cs2) \<Rightarrow>
                   (case lexExponent cs2 of
                      None \<Rightarrow> None
                    | Some (e, cs3) \<Rightarrow>
                        (let m = of_nat (digitsValue (ds @ fs));
                             v = scale10 m (e - int (length fs))
                         in Some (if neg then - v else v, cs3)))))"

definition isJsonSpace :: "nat \<Rightarrow> bool" where
  "isJsonSpace c \<longleftrightarrow> c = 32 \<or> c = 9 \<or> c = 10 \<or> c = 13"

text \<open>The first token of an input that starts with no white space.\<close>

definition nextToken :: "jsstring \<Rightarrow> (token \<times> jsstring) option" where
  "nextToken cs =
     (case cs of
        [] \<Rightarrow> None
      | c # r \<Rightarrow>
          if c = 123 then Some (TLBrace, r)
          else if c = 125 then Some (TRBrace, r)
          else if c = 91 then Some (TLBrack, r)
          else if c = 93 then Some (TRBrack, r)
          else if c = 44 then Some (TComma, r)
          else if c = 58 then Some (TColon, r)
          else if c = 34 then
            (case lexString [] r of
               None \<Rightarrow> None
             | Some (s, r1) \<Rightarrow> Some (TLit (Str s), r1))
          else if c = 45 \<or> isDigit c then
            (case lexNumber cs of
               None \<Rightarrow> None
             | Some (v, r1) \<Rightarrow> Some (TLit (Num (Fin v)), r1))
          else if take 4 cs = js ''true'' then Some (TLit (Bool True), drop 4 cs)
          else if take 5 cs = js ''false'' then Some (TLit (Bool False), drop 5 cs)
          else if take 4 cs = js ''null'' then Some (TLit Null, drop 4 cs)
          else None)"

lemma lexString_shorter: "lexString acc cs = Some (s, rest) \<Longrightarrow> length rest < length cs"
proof (induction acc cs arbitrary: s rest rule: lexString.induct)
  case (1 acc)
  then show ?case by simp
next
  case (2 acc c cs)
  show ?case
  proof (cases "c = 34")
    case True
    with "2.prems" show ?thesis by simp
  next
    case notq: False
    show ?thesis
    proof (cases "c = 92")
      case False
      with notq "2.prems" have "lexString (c # acc) cs = Some (s, rest)"
        by (simp split: if_splits)
      with "2.IH"(3) [OF notq False] "2.prems" notq False show ?thesis
        by (auto split: if_splits)
    next
      case bs: True
      show ?thesis
      proof (cases cs)
        case Nil
        with "2.prems" notq bs show ?thesis by simp
      next
        case (Cons e cs1)
        show ?thesis
        proof (cases "e = 117")
          case False
          with "2.prems" notq bs Cons obtain d where
            d: "unescape e = Some d" and r: "lexString (d # acc) cs1 = Some (s, rest)"
            by (auto split: option.splits)
          from "2.IH"(2) [OF notq bs Cons False d r] Cons show ?thesis
            by simp
        next
          case u: True
          with "2.prems" notq bs Cons obtain h1 h2 h3 h4 cs2 v where
            c1: "cs1 = h1 # h2 # h3 # h4 # cs2" and
            h: "hex4 h1 h2 h3 h4 = Some v" and
            r: "lexString (v # acc) cs2 = Some (s, rest)"
            by (auto split: list.splits option.splits)
          from "2.IH"(1) [OF notq bs Cons u c1 refl refl refl h r] Cons c1 show ?thesis
            by simp
        qed
      qed
    qed
  qed
qed

lemma lexFraction_le: "lexFraction cs = Some (fs, rest) \<Longrightarrow> length rest \<le> length cs"
  by (auto simp: lexFraction_def length_dropWhile_le le_SucI split: list.splits if_splits)

lemma lexExponent_le: "lexExponent cs = Some (e, rest) \<Longrightarrow> length rest \<le> length cs"
proof (cases cs)
  case Nil
  then show "lexExponent cs = Some (e, rest) \<Longrightarrow> ?thesis"
    by (simp add: lexExponent_def)
next
  case (Cons c r)
  assume h: "lexExponent cs = Some (e, rest)"
  have a: "length (dropWhile isDigit r) \<le> length r"
    by (rule length_dropWhile_le)
  have b: "length (dropWhile isDigit (tl r)) \<le> length r"
    using length_dropWhile_le [of isDigit "tl r"] by simp
  from h Cons a b show ?thesis
    by (auto simp: lexExponent_def Let_def split: if_splits)
qed

lemma lexNumber_shorter:
  assumes "lexNumber cs = Some (v, rest)"
  shows "length rest < length cs"
proof -
  define cs1 where "cs1 = (if cs \<noteq> [] \<and> hd cs = 45 then tl cs else cs)"
  have le1: "length cs1 \<le> length cs"
    by (simp add: cs1_def)
  from assms have ne: "takeWhile isDigit cs1 \<noteq> []"
    by (auto simp: lexNumber_def Let_def cs1_def split: if_splits)
  from assms obtain fs cs2 e where
    f: "lexFraction (dropWhile isDigit cs1) = Some (fs, cs2)" and
    x: "lexExponent cs2 = Some (e, rest)"
    by (auto simp: lexNumber_def Let_def cs1_def split: if_splits option.splits)
  have "length (takeWhile isDigit cs1) + length (dropWhile isDigit cs1) = length cs1"
    by (metis length_append takeWhile_dropWhile_id)
  with ne have "length (dropWhile isDigit cs1) < length cs1"
    by (cases "takeWhile isDigit cs1") auto
  with lexFraction_le [OF f] lexExponent_le [OF x] le1 show ?thesis
    by linarith
qed

lemma nextToken_shorter: "nextToken cs = Some (t, rest) \<Longrightarrow> length rest < length cs"
  by (cases cs)
     (auto simp: nextToken_def split: if_splits option.splits
           dest: lexString_shorter lexNumber_shorter)

function tokenize :: "jsstring \<Rightarrow> token list option" where
  "tokenize cs =
     (case dropWhile isJsonSpace cs of
        [] \<Rightarrow> Some []
      | c # r \<Rightarrow>
          (case nextToken (c # r) of
             None \<Rightarrow> None
           | Some (t, rest) \<Rightarrow>
               (case tokenize rest of
                  None \<Rightarrow> None
                | Some ts \<Rightarrow> Some (t # ts))))"
  by pat_completeness auto
termination
proof (relation "measure length")
  fix cs :: jsstring and c r p t rest
  assume d: "dropWhile isJsonSpace cs = c # r"
    and n: "nextToken (c # r) = Some p" and p: "(t, rest) = p"
  from n p have "length rest < length (c # r)"
    by (auto dest: nextToken_shorter)
  moreover have "length (c # r) \<le> length cs"
    using length_dropWhile_le [of isJsonSpace cs] d by simp
  ultimately show "(rest, cs) \<in> measure length"
    by simp
qed simp

declare tokenize.simps [simp del]

text \<open>
  The automaton: a stack of the containers that are open (an array with its elements so
  far, latest first; an object with its properties so far and the key whose value is
  awaited) and what may come next.
\<close>

datatype frame = FArr "jsval list" | FObj "(jsstring \<times> jsval) list" "jsstring option"

datatype expect =
    EValue
  | EArrStart
  | EObjStart
  | EKey
  | EColon
  | EAfter
  | EDone jsval

text \<open>
  Own property keys are kept in the order \<open>Object.keys\<close> lists them: array indices
  first, ascending, then the other keys in the order of their creation.
\<close>

definition keyBefore :: "jsstring \<Rightarrow> jsstring \<Rightarrow> bool" where
  "keyBefore k k' =
     (case arrayIndex k of
        None \<Rightarrow> False
      | Some i \<Rightarrow> (case arrayIndex k' of None \<Rightarrow> True | Some j \<Rightarrow> i < j))"

text \<open>Creating or overwriting the data property \<open>k\<close>.\<close>

fun defineProperty :: "(jsstring \<times> jsval) list \<Rightarrow> jsstring \<Rightarrow> jsval \<Rightarrow> (jsstring \<times> jsval) list" where
  "defineProperty [] k v = [(k, v)]"
| "defineProperty ((k', v') # es) k v =
     (if k' = k then (k, v) # es
      else if keyBefore k k' then (k, v) # (k', v') # es
      else (k', v') # defineProperty es k v)"

text \<open>A value is complete: it is the result, an element, or the value of the awaited key.\<close>

fun complete :: "jsval \<Rightarrow> frame list \<Rightarrow> (frame list \<times> expect) option" where
  "complete v [] = Some ([], EDone v)"
| "complete v (FArr xs # st) = Some (FArr (v # xs) # st, EAfter)"
| "complete v (FObj es (Some k) # st) = Some (FObj (defineProperty es k v) None # st, EAfter)"
| "complete v (FObj es None # st) = None"

fun startValue :: "token \<Rightarrow> frame list \<Rightarrow> (frame list \<times> expect) option" where
  "startValue (TLit v) st = complete v st"
| "startValue TLBrack st = Some (FArr [] # st, EArrStart)"
| "startValue TLBrace st = Some (FObj [] None # st, EObjStart)"
| "startValue _ st = None"

fun startKey :: "token \<Rightarrow> frame list \<Rightarrow> (frame list \<times> expect) option" where
  "startKey (TLit (Str k)) (FObj es None # st) = Some (FObj es (Some k) # st, EColon)"
| "startKey _ st = None"

fun closeArr :: "frame list \<Rightarrow> (frame list \<times> expect) option" where
  "closeArr (FArr xs # st) = complete (Arr (rev xs)) st"
| "closeArr _ = None"

fun closeObj :: "frame list \<Rightarrow> (frame list \<times> expect) option" where
  "closeObj (FObj es None # st) = complete (Obj es) st"
| "closeObj _ = None"

fun afterValue :: "token \<Rightarrow> frame list \<Rightarrow> (frame list \<times> expect) option" where
  "afterValue TComma (FArr xs # st) = Some (FArr xs # st, EValue)"
| "afterValue TComma (FObj es None # st) = Some (FObj es None # st, EKey)"
| "afterValue TRBrack st = closeArr st"
| "afterValue TRBrace st = closeObj st"
| "afterValue _ st = None"

fun parseStep :: "frame list \<times> expect \<Rightarrow> token \<Rightarrow> (frame list \<times> expect) option" where
  "parseStep (st, EValue) t = startValue t st"
| "parseStep (st, EArrStart) t = (if t = TRBrack then closeArr st else startValue t st)"
| "parseStep (st, EObjStart) t = (if t = TRBrace then closeObj st else startKey t st)"
| "parseStep (st, EKey) t = startKey t st"
| "parseStep (st, EColon) t = (if t = TColon then Some (st, EValue) else None)"
| "parseStep (st, EAfter) t = afterValue t st"
| "parseStep (st, EDone v) t = None"

fun parseTokens :: "frame list \<times> expect \<Rightarrow> token list \<Rightarrow> (frame list \<times> expect) option" where
  "parseTokens c [] = Some c"
| "parseTokens c (t # ts) =
     (case parseStep c t of
        None \<Rightarrow> None
      | Some c' \<Rightarrow> parseTokens c' ts)"

definition JSON_parse :: "jsstring \<Rightarrow> jsval option" where
  "JSON_parse text =
     (case tokenize text of
        None \<Rightarrow> None
      | Some ts \<Rightarrow>
          (case parseTokens ([], EValue) ts of
             Some ([], EDone v) \<Rightarrow> Some v
           | _ \<Rightarrow> None))"

section \<open>Objects and conversions\<close>

text \<open>
  \<open>v[k]\<close> for a property name \<open>k\<close>; \<open>None\<close> is the \<open>TypeError\<close> of reading a
  property of \<open>null\<close> or \<open>undefined\<close>. Only own properties are modelled: the names
  the gateway reads are none of those the built-in prototypes define.
\<close>

fun getProp :: "jsval \<Rightarrow> jsstring \<Rightarrow> jsval option" where
  "getProp Undefined k = None"
| "getProp Null k = None"
| "getProp (Obj es) k = Some (case map_of es k of None \<Rightarrow> Undefined | Some v \<Rightarrow> v)"
| "getProp (Arr xs) k =
     Some (if k = js ''length'' then Num (Fin (of_nat (length xs)))
           else (case arrayIndex k of
                   None \<Rightarrow> Undefined
                 | Some i \<Rightarrow> if i < length xs then xs ! i else Undefined))"
| "getProp (Str s) k =
     Some (if k = js ''length'' then Num (Fin (of_nat (length s)))
           else (case arrayIndex k of
                   None \<Rightarrow> Undefined
                 | Some i \<Rightarrow> if i < length s then Str [s ! i] else Undefined))"
| "getProp (Bool b) k = Some Undefined"
| "getProp (Num n) k = Some Undefined"

text \<open>Optional chaining \<open>v?.k\<close>: \<open>undefined\<close> where \<open>v\<close> is \<open>null\<close> or \<open>undefined\<close>.\<close>

definition optGet :: "jsval \<Rightarrow> jsstring \<Rightarrow> jsval" where
  "optGet v k = (case getProp v k of None \<Rightarrow> Undefined | Some x \<Rightarrow> x)"

text \<open>\<open>Object.keys(v)\<close>; \<open>None\<close> is the \<open>TypeError\<close> on \<open>null\<close> and \<open>undefined\<close>.\<close>

fun Object_keys :: "jsval \<Rightarrow> jsstring list option" where
  "Object_keys Undefined = None"
| "Object_keys Null = None"
| "Object_keys (Obj es) = Some (map fst es)"
| "Object_keys (Arr xs) = Some (map dec [0..<length xs])"
| "Object_keys (Str s) = Some (map dec [0..<length s])"
| "Object_keys (Bool b) = Some []"
| "Object_keys (Num n) = Some []"

text \<open>
  The assignment \<open>obj[k] = v\<close> on a plain object. Assigning to \<open>__proto__\<close> runs the
  inherited setter, which creates no own property.
\<close>

definition assignProp :: "(jsstring \<times> jsval) list \<Rightarrow> jsstring \<Rightarrow> jsval \<Rightarrow> (jsstring \<times> jsval) list" where
  "assignProp es k v = (if k = js ''__proto__'' then es else defineProperty es k v)"

text \<open>
  \<open>Number(s)\<close> on a string, after the StringNumericLiteral grammar; \<open>None\<close> is \<open>NaN\<close>.
\<close>

definition radixValue :: "nat \<Rightarrow> jsstring \<Rightarrow> nat option" where
  "radixValue b ds =
     (if ds \<noteq> [] \<and> list_all (\<lambda>c. case hexValue c of None \<Rightarrow> False | Some d \<Rightarrow> d < b) ds
      then Some (foldl (\<lambda>a c. b * a + the (hexValue c)) 0 ds)
      else None)"

definition decimalValue :: "jsstring \<Rightarrow> rat option" where
  "decimalValue r =
     (let ip = takeWhile isDigit r;
          r1 = dropWhile isDigit r;
          dot = (r1 \<noteq> [] \<and> hd r1 = 46);
          fp = (if dot then takeWhile isDigit (tl r1) else []);
          r2 = (if dot then dropWhile isDigit (tl r1) else r1)
      in if ip = [] \<and> fp = [] then None
         else (case lexExponent r2 of
                 Some (e, []) \<Rightarrow>
                   Some (scale10 (of_nat (digitsValue (ip @ fp))) (e - int (length fp)))
               | _ \<Rightarrow> None))"

definition Number_of :: "jsstring \<Rightarrow> jsnum option" where
  "Number_of str =
     (let s = String_trim str in
      if s = [] then Some (Fin 0)
      else if take 2 s = js ''0x'' \<or> take 2 s = js ''0X'' then
        map_option (\<lambda>n. Fin (of_nat n)) (radixValue 16 (drop 2 s))
      else if take 2 s = js ''0o'' \<or> take 2 s = js ''0O'' then
        map_option (\<lambda>n. Fin (of_nat n)) (radixValue 8 (drop 2 s))
      else if take 2 s = js ''0b'' \<or> take 2 s = js ''0B'' then
        map_option (\<lambda>n. Fin (of_nat n)) (radixValue 2 (drop 2 s))
      else
        (let neg = (hd s = 45);
             r = (if hd s = 45 \<or> hd s = 43 then tl s else s)
         in if r = js ''Infinity'' then Some (if neg then NegInf else PosInf)
            else map_option (\<lambda>v. Fin (if neg then - v else v)) (decimalValue r)))"

section \<open>Request payload builders (request-transformers.js)\<close>

text \<open>
  One \<open>key=value\<close> pair of the comma-separated format: both sides trimmed, the pair
  kept when both are non-empty, the value read as a boolean, a number or a string.
\<close>

definition coerceValue :: "jsstring \<Rightarrow> jsval" where
  "coerceValue v =
     (if v = js ''true'' then Bool True
      else if v = js ''false'' then Bool False
      else (case Number_of v of
              Some n \<Rightarrow> Num n
            | None \<Rightarrow> Str v))"

definition addPair :: "(jsstring \<times> jsval) list \<Rightarrow> jsstring \<Rightarrow> (jsstring \<times> jsval) list" where
  "addPair params pair =
     (case map String_trim (split_on 61 pair) of
        key # v # _ \<Rightarrow>
          if key \<noteq> [] \<and> v \<noteq> [] then assignProp params key (coerceValue v) else params
      | _ \<Rightarrow> params)"

text \<open>
  \<open>parseOptionalParams\<close>: the string as JSON, and when that throws, as a
  comma-separated list of \<open>key=value\<close> pairs.
\<close>

definition keyValueParams :: "jsstring \<Rightarrow> (jsstring \<times> jsval) list" where
  "keyValueParams paramsString = foldl addPair [] (split_on 44 paramsString)"

definition parseOptionalParams :: "jsstring \<Rightarrow> jsval" where
  "parseOptionalParams paramsString =
     (if paramsString = [] \<or> String_trim paramsString = [] then Obj []
      else (case JSON_parse paramsString of
              Some v \<Rightarrow> v
            | None \<Rightarrow> Obj (keyValueParams paramsString)))"

definition RESERVED_FIELDS :: "jsstring list" where
  "RESERVED_FIELDS = [js ''messages'', js ''stream'']"

text \<open>
  The statement \<open>Object.keys(parsedParams).forEach(...)\<close> of both chat builders: every
  key that is not reserved is assigned to the payload. \<open>Inl\<close> is the exception of
  \<open>Object.keys\<close>, thrown before anything is assigned.
\<close>

definition mergeParams :: "(jsstring \<times> jsval) list \<Rightarrow> jsval \<Rightarrow> js_error + (jsstring \<times> jsval) list" where
  "mergeParams payload parsedParams =
     (case Object_keys parsedParams of
        None \<Rightarrow> Inl TypeError
      | Some keys \<Rightarrow>
          Inr (foldl (\<lambda>p key. if key \<in> set RESERVED_FIELDS then p
                              else assignProp p key (optGet parsedParams key))
                 payload keys))"

text \<open>\<open>messages[messages.length - 1]\<close>: \<open>undefined\<close> on an empty array.\<close>

definition lastMessage :: "jsval list \<Rightarrow> jsval" where
  "lastMessage messages = (if messages = [] then Undefined else last messages)"

text \<open>
  \<open>buildChatPayload\<close> and \<open>buildChatStreamPayload\<close>. The optional parameters are a
  string, or absent (\<open>None\<close>). The \<open>try\<close>/\<open>catch\<close> around the merge returns the
  payload as it stands.
\<close>

definition buildChatPayload :: "jsval list \<Rightarrow> bool \<Rightarrow> jsstring option \<Rightarrow> js_error + jsval" where
  "buildChatPayload messages useChatHistory optionalParams =
     (let payload =
            [(js ''messages'', Arr (if useChatHistory then messages else [lastMessage messages])),
             (js ''model'', Str (js ''nvidia/nemotron'')),
             (js ''stream'', Bool False),
             (js ''temperature'', Num (Fin (7 / 10)))]
      in case optionalParams of
           None \<Rightarrow> Inr (Obj payload)
         | Some s \<Rightarrow>
             if s \<noteq> [] \<and> String_trim s \<noteq> [] then
               (case mergeParams payload (parseOptionalParams s) of
                  Inl e \<Rightarrow> Inr (Obj payload)
                | Inr merged \<Rightarrow> Inr (Obj merged))
             else Inr (Obj payload))"

definition buildChatStreamPayload :: "jsval list \<Rightarrow> bool \<Rightarrow> jsstring option \<Rightarrow> js_error + jsval" where
  "buildChatStreamPayload messages useChatHistory optionalParams =
     (let payload =
            [(js ''messages'', Arr (if useChatHistory then messages else [lastMessage messages])),
             (js ''model'', Str (js ''nvidia/nemotron'')),
             (js ''stream'', Bool True),
             (js ''temperature'', Num (Fin (7 / 10)))]
      in case optionalParams of
           None \<Rightarrow> Inr (Obj payload)
         | Some s \<Rightarrow>
             if s \<noteq> [] \<and> String_trim s \<noteq> [] then
               (case mergeParams payload (parseOptionalParams s) of
                  Inl e \<Rightarrow> Inr (Obj payload)
                | Inr merged \<Rightarrow> Inr (Obj merged))
             else Inr (Obj payload))"

text \<open>The field \<open>k\<close> of the payload a builder returns; \<open>None\<close> when the builder throws.\<close>

definition payloadField :: "js_error + jsval \<Rightarrow> jsstring \<Rightarrow> jsval option" where
  "payloadField r k = (case r of Inl e \<Rightarrow> None | Inr p \<Rightarrow> Some (optGet p k))"

text \<open>
  What the optional parameters, as \<open>parseOptionalParams\<close> reads them, supply for the
  key \<open>k\<close>: the value of the own property \<open>k\<close>, if the merge is reached and there is one.
\<close>

definition suppliedValue :: "jsstring option \<Rightarrow> jsstring \<Rightarrow> jsval option" where
  "suppliedValue optionalParams k =
     (case optionalParams of
        None \<Rightarrow> None
      | Some s \<Rightarrow>
          if s \<noteq> [] \<and> String_trim s \<noteq> [] then
            (case Object_keys (parseOptionalParams s) of
               None \<Rightarrow> None
             | Some keys \<Rightarrow>
                 if k \<in> set keys then Some (optGet (parseOptionalParams s) k) else None)
          else None)"

section \<open>Response processors (response-processors.js)\<close>

subsection \<open>The response sink and the backend response\<close>

text \<open>
  What is written to the client is kept as text parts: a literal string, or the text
  that \<open>JSON.stringify\<close> or string conversion gives for a value (kept symbolic: the
  printing of doubles is not modelled).
\<close>

datatype part = Lit jsstring | Stringify jsval | ToString jsval

type_synonym body = "part list"

type_synonym headers = "(jsstring \<times> jsstring) list"

text \<open>The calls a handler makes on the response object \<open>res\<close>, in order.\<close>

datatype res_call =
    SetHeader jsstring jsstring
  | WriteHead nat headers
  | Write body
  | End "body option"

text \<open>
  The response \<open>fetch\<close> resolved with. \<open>body\<close> is \<open>null\<close> (\<open>None\<close>) for a response
  without content (a status 204 or 205, the answer to a \<open>HEAD\<close> request); else it is
  the stream, given by the decoded text in the chunks the reader delivers.
  \<open>bodyError\<close> is the message of the error the body stream fails with after these
  chunks, if it does.
\<close>

record backend_response =
  status :: nat
  traceId :: "jsstring option"
  body :: "jsstring list option"
  bodyError :: "jsstring option"

definition ok :: "backend_response \<Rightarrow> bool" where
  "ok r \<longleftrightarrow> 200 \<le> status r \<and> status r \<le> 299"

text \<open>
  \<open>await backendRes.text()\<close>: the whole body, or the rejection (\<open>Inl\<close>). The text of a
  response whose body is \<open>null\<close> is the empty string.
\<close>

definition bodyText :: "backend_response \<Rightarrow> jsstring + jsstring" where
  "bodyText r =
     (case body r of
        None \<Rightarrow> Inr []
      | Some chunks \<Rightarrow> (case bodyError r of None \<Rightarrow> Inr (concat chunks) | Some msg \<Rightarrow> Inl msg))"

text \<open>
  A processor returns the calls it made on \<open>res\<close> and, when it rejects, the message
  of the error it rejects with.
\<close>

type_synonym processed = "res_call list \<times> jsstring option"

definition jsonHeaders :: headers where
  "jsonHeaders = [(js ''Content-Type'', js ''application/json'')]"

text \<open>The branch every processor starts with: a backend status that is not a success.\<close>

definition mirrorFailure :: "backend_response \<Rightarrow> processed" where
  "mirrorFailure backendRes =
     (case bodyText backendRes of
        Inl msg \<Rightarrow> ([WriteHead (status backendRes) jsonHeaders], Some msg)
      | Inr t \<Rightarrow> ([WriteHead (status backendRes) jsonHeaders, End (Some [Lit t])], None))"

text \<open>
  \<open>res.end(typeof v === 'string' ? v : JSON.stringify(v))\<close>; \<open>JSON.stringify\<close> of
  \<open>undefined\<close> is \<open>undefined\<close>, which ends the response without a body.
\<close>

fun endWith :: "jsval \<Rightarrow> res_call" where
  "endWith (Str s) = End (Some [Lit s])"
| "endWith Undefined = End None"
| "endWith v = End (Some [Stringify v])"

text \<open>A value inside a template literal.\<close>

fun toStringPart :: "jsval \<Rightarrow> part" where
  "toStringPart (Str s) = Lit s"
| "toStringPart v = ToString v"

subsection \<open>Lines shared by the two stream processors\<close>

definition processIntermediateData :: "jsstring \<Rightarrow> res_call list" where
  "processIntermediateData line =
     (case String_split (js ''intermediate_data: '') line of
        _ # data # _ \<Rightarrow>
          (case JSON_parse data of
             None \<Rightarrow> []
           | Some payload \<Rightarrow>
               [Write [Lit (js ''<intermediatestep>''),
                  Stringify (Obj
                    [(js ''id'', js_or (optGet payload (js ''id'')) (Str [])),
                     (js ''status'', js_or (optGet payload (js ''status'')) (Str (js ''in_progress''))),
                     (js ''error'', js_or (optGet payload (js ''error'')) (Str [])),
                     (js ''type'', Str (js ''system_intermediate'')),
                     (js ''parent_id'', js_or (optGet payload (js ''parent_id'')) (Str (js ''default''))),
                     (js ''intermediate_parent_id'',
                        js_or (optGet payload (js ''intermediate_parent_id'')) (Str (js ''default''))),
                     (js ''content'', Obj
                        [(js ''name'', js_or (optGet payload (js ''name'')) (Str (js ''Step''))),
                         (js ''payload'', js_or (optGet payload (js ''payload'')) (Str (js ''No details'')))]),
                     (js ''time_stamp'', js_or (optGet payload (js ''time_stamp'')) (Str (js ''default'')))]),
                  Lit (js ''</intermediatestep>'')]])
      | _ \<Rightarrow> [])"

definition processObservabilityTrace :: "jsstring \<Rightarrow> res_call list" where
  "processObservabilityTrace line =
     (case String_split (js ''observability_trace: '') line of
        _ # data # _ \<Rightarrow>
          (case JSON_parse data of
             None \<Rightarrow> []
           | Some payload \<Rightarrow>
               if truthy (optGet payload (js ''observability_trace_id'')) then
                 [Write [Lit (js ''<observabilitytraceid>''),
                    toStringPart (optGet payload (js ''observability_trace_id'')),
                    Lit (js ''</observabilitytraceid>'')]]
               else [])
      | _ \<Rightarrow> [])"

text \<open>\<open>processCommonLineTypes\<close>: the calls made, and whether the line was handled.\<close>

definition processCommonLineTypes :: "jsstring \<Rightarrow> res_call list \<times> bool" where
  "processCommonLineTypes line =
     (if String_startsWith line (js ''intermediate_data: '') then (processIntermediateData line, True)
      else if String_startsWith line (js ''observability_trace: '') then
        (processObservabilityTrace line, True)
      else if String_startsWith (String_trim line) (js ''{'') then
        ([Write [Lit (String_trim line)]], True)
      else ([], False))"

definition processRemainingBuffer :: "jsstring \<Rightarrow> res_call list" where
  "processRemainingBuffer buffer =
     (if String_startsWith (String_trim buffer) (js ''{'') then [Write [Lit (String_trim buffer)]]
      else [])"

subsection \<open>The read loop of the stream processors\<close>

text \<open>
  A line handler gives the calls made for one line, or \<open>None\<close> at the \<open>DONE\<close>
  sentinel, where the processor calls \<open>res.end()\<close> and returns. \<open>forLines\<close> is the
  inner \<open>for\<close> loop: the calls, and whether the processor returned.
\<close>

fun forLines :: "(jsstring \<Rightarrow> res_call list option) \<Rightarrow> jsstring list \<Rightarrow> res_call list \<times> bool" where
  "forLines h [] = ([], False)"
| "forLines h (line # lines) =
     (case h line of
        None \<Rightarrow> ([End None], True)
      | Some cs \<Rightarrow> (case forLines h lines of (cs', returned) \<Rightarrow> (cs @ cs', returned)))"

text \<open>
  The \<open>while\<close> loop over the chunks the reader delivers: the buffer grows by the
  chunk and is split at newlines, the last piece stays in the buffer, the others are
  handled as lines. The result is the calls made and the buffer left when the reader
  is exhausted, or \<open>None\<close> when the processor returned at the sentinel.
\<close>

fun readLoop :: "(jsstring \<Rightarrow> res_call list option) \<Rightarrow> jsstring \<Rightarrow> jsstring list
    \<Rightarrow> res_call list \<times> jsstring option" where
  "readLoop h buffer [] = ([], Some buffer)"
| "readLoop h buffer (chunk # rest) =
     (let lines = split_on 10 (buffer @ chunk) in
      case forLines h (butlast lines) of
        (cs, True) \<Rightarrow> (cs, None)
      | (cs, False) \<Rightarrow>
          (case readLoop h (last lines) rest of (cs', b) \<Rightarrow> (cs @ cs', b)))"

definition streamHeaders :: "jsstring \<Rightarrow> headers" where
  "streamHeaders corsOrigin =
     [(js ''Content-Type'', js ''text/event-stream; charset=utf-8''),
      (js ''Transfer-Encoding'', js ''chunked''),
      (js ''Access-Control-Allow-Origin'', corsOrigin),
      (js ''Access-Control-Allow-Credentials'', js ''true'')]"

text \<open>
  The message of the \<open>TypeError\<close> that \<open>backendRes.body.getReader()\<close> throws when the
  body is \<open>null\<close>.
\<close>

definition nullBodyMessage :: jsstring where
  "nullBodyMessage =
     js ''Cannot read properties of null (reading '' @ [39] @ js ''getReader'' @ [39] @ js '')''"

text \<open>
  The body of both stream processors after the status check, for a line handler:
  the head, then \<open>backendRes.body.getReader()\<close>, which is outside the \<open>try\<close> and
  throws when the body is \<open>null\<close>, so that the processor rejects with the head
  written and the response open; else the read loop, the flush of the remaining buffer
  when the reader ends without error, and the \<open>res.end()\<close> of the \<open>finally\<close> block,
  which runs on every path through the \<open>try\<close>, also after the return at the sentinel.
\<close>

definition processStream :: "(jsstring \<Rightarrow> res_call list option) \<Rightarrow> jsstring \<Rightarrow> backend_response
    \<Rightarrow> processed" where
  "processStream h corsOrigin backendRes =
     (case body backendRes of
        None \<Rightarrow> ([WriteHead 200 (streamHeaders corsOrigin)], Some nullBodyMessage)
      | Some chunks \<Rightarrow>
          (case readLoop h [] chunks of
             (cs, None) \<Rightarrow> (WriteHead 200 (streamHeaders corsOrigin) # cs @ [End None], None)
           | (cs, Some buffer) \<Rightarrow>
               (case bodyError backendRes of
                  Some msg \<Rightarrow> (WriteHead 200 (streamHeaders corsOrigin) # cs @ [End None], None)
                | None \<Rightarrow>
                    (WriteHead 200 (streamHeaders corsOrigin) # cs @ processRemainingBuffer buffer
                       @ [End None], None))))"

subsection \<open>\<open>processChatStream\<close>\<close>

text \<open>
  \<open>res.write(content)\<close> throws on a chunk that is not a string; the \<open>catch\<close> around
  the line drops the error, as it drops the one of \<open>JSON.parse\<close> and the one of reading
  \<open>choices\<close> of \<open>null\<close>.
\<close>

definition isDone :: "jsstring \<Rightarrow> bool" where
  "isDone data \<longleftrightarrow> data = js ''[DONE]'' \<or> data = js ''DONE''"

definition chatStreamData :: "jsstring \<Rightarrow> res_call list option" where
  "chatStreamData line =
     (let data = String_trim (drop 6 line) in
      if isDone data then None
      else Some
        (case JSON_parse data of
           None \<Rightarrow> []
         | Some parsed \<Rightarrow>
             (case getProp parsed (js ''choices'') of
                None \<Rightarrow> []
              | Some choices \<Rightarrow>
                  (let first = optGet choices (js ''0'');
                       content = js_or (optGet (optGet first (js ''message'')) (js ''content''))
                                       (optGet (optGet first (js ''delta'')) (js ''content''))
                   in if truthy content then
                        (case content of Str c \<Rightarrow> [Write [Lit c]] | _ \<Rightarrow> [])
                      else []))))"

definition chatStreamLine :: "jsstring \<Rightarrow> res_call list option" where
  "chatStreamLine line =
     (if String_startsWith line (js ''data: '') then chatStreamData line
      else Some (fst (processCommonLineTypes line)))"

definition processChatStream :: "jsstring \<Rightarrow> backend_response \<Rightarrow> processed" where
  "processChatStream corsOrigin backendRes =
     (if \<not> ok backendRes then mirrorFailure backendRes
      else processStream chatStreamLine corsOrigin backendRes)"

subsection \<open>\<open>processGenerateStream\<close>\<close>

definition generateStreamData :: "jsstring \<Rightarrow> res_call list option" where
  "generateStreamData line =
     (let data = String_trim (drop 6 line) in
      if isDone data then None
      else Some
        (case JSON_parse data of
           None \<Rightarrow> []
         | Some parsed \<Rightarrow>
             (case optGet parsed (js ''value'') of
                Str v \<Rightarrow> if v \<noteq> [] then [Write [Lit data]] else []
              | _ \<Rightarrow> [])))"

definition generateStreamLine :: "jsstring \<Rightarrow> res_call list option" where
  "generateStreamLine line =
     (if String_startsWith line (js ''data: '') then generateStreamData line
      else Some (fst (processCommonLineTypes line)))"

definition processGenerateStream :: "jsstring \<Rightarrow> backend_response \<Rightarrow> processed" where
  "processGenerateStream corsOrigin backendRes =
     (if \<not> ok backendRes then mirrorFailure backendRes
      else processStream generateStreamLine corsOrigin backendRes)"

text \<open>
  For stating what the generate-stream processor forwards: the payload of a \<open>data: \<close>
  line, and whether it parses to JSON with a non-empty string \<open>value\<close>.
\<close>

definition linePayload :: "jsstring \<Rightarrow> jsstring" where
  "linePayload line = String_trim (drop 6 line)"

definition carriesValue :: "jsstring \<Rightarrow> bool" where
  "carriesValue line \<longleftrightarrow>
     (case JSON_parse (linePayload line) of
        None \<Rightarrow> False
      | Some parsed \<Rightarrow> (case optGet parsed (js ''value'') of Str v \<Rightarrow> v \<noteq> [] | _ \<Rightarrow> False))"

text \<open>
  A line at which the generate-stream processor returns, and what it writes for any
  other line: for a \<open>data: \<close> line its payload when that carries a value, else
  nothing; for a line of another kind what \<open>processCommonLineTypes\<close> writes.
\<close>

definition sentinelLine :: "jsstring \<Rightarrow> bool" where
  "sentinelLine line \<longleftrightarrow> String_startsWith line (js ''data: '') \<and> isDone (linePayload line)"

definition generateLineOutput :: "jsstring \<Rightarrow> res_call list" where
  "generateLineOutput line =
     (if String_startsWith line (js ''data: '') then
        if carriesValue line then [Write [Lit (linePayload line)]] else []
      else fst (processCommonLineTypes line))"

subsection \<open>The processors of whole bodies\<close>

text \<open>The headers of a success, with the trace id of the backend when it sent one.\<close>

definition responseHeaders :: "jsstring \<Rightarrow> jsstring \<Rightarrow> backend_response \<Rightarrow> headers" where
  "responseHeaders contentType corsOrigin backendRes =
     [(js ''Content-Type'', contentType),
      (js ''Access-Control-Allow-Origin'', corsOrigin),
      (js ''Access-Control-Allow-Credentials'', js ''true'')]
     @ (case traceId backendRes of
          None \<Rightarrow> []
        | Some t \<Rightarrow> if t \<noteq> [] then [(js ''Observability-Trace-Id'', t)] else [])"

definition processChat :: "jsstring \<Rightarrow> backend_response \<Rightarrow> processed" where
  "processChat corsOrigin backendRes =
     (if \<not> ok backendRes then mirrorFailure backendRes
      else
        (case bodyText backendRes of
           Inl msg \<Rightarrow> ([], Some msg)
         | Inr data \<Rightarrow>
             (let hs = responseHeaders (js ''text/plain; charset=utf-8'') corsOrigin backendRes in
              case JSON_parse data of
                None \<Rightarrow> ([WriteHead 200 hs, End (Some [Lit data])], None)
              | Some parsed \<Rightarrow>
                  (let content =
                         js_or (optGet (optGet (optGet (optGet parsed (js ''choices'')) (js ''0''))
                                         (js ''message'')) (js ''content''))
                        (js_or (optGet parsed (js ''message''))
                        (js_or (optGet parsed (js ''answer''))
                               (optGet parsed (js ''value''))))
                   in ([WriteHead 200 hs, endWith content], None)))))"

definition processGenerate :: "jsstring \<Rightarrow> backend_response \<Rightarrow> processed" where
  "processGenerate corsOrigin backendRes =
     (if \<not> ok backendRes then mirrorFailure backendRes
      else
        (case bodyText backendRes of
           Inl msg \<Rightarrow> ([], Some msg)
         | Inr data \<Rightarrow>
             ([WriteHead 200
                 (responseHeaders (js ''application/json; charset=utf-8'') corsOrigin backendRes),
               End (Some [Lit data])], None)))"

definition caRagHeaders :: "jsstring \<Rightarrow> headers" where
  "caRagHeaders corsOrigin =
     [(js ''Content-Type'', js ''text/plain; charset=utf-8''),
      (js ''Access-Control-Allow-Origin'', corsOrigin),
      (js ''Access-Control-Allow-Credentials'', js ''true'')]"

definition processCaRag :: "jsstring \<Rightarrow> backend_response \<Rightarrow> processed" where
  "processCaRag corsOrigin backendRes =
     (if \<not> ok backendRes then mirrorFailure backendRes
      else
        (case bodyText backendRes of
           Inl msg \<Rightarrow> ([], Some msg)
         | Inr data \<Rightarrow>
             (case JSON_parse data of
                None \<Rightarrow> ([WriteHead 200 (caRagHeaders corsOrigin), End (Some [Lit data])], None)
              | Some parsed \<Rightarrow>
                  (let answer =
                         js_or (optGet (optGet (optGet parsed (js ''state'')) (js ''chat''))
                                  (js ''answer''))
                        (js_or (optGet parsed (js ''answer'')) (Str data))
                   in ([WriteHead 200 (caRagHeaders corsOrigin), endWith answer], None)))))"

subsection \<open>What the client observes\<close>

text \<open>
  The response object is Node's \<open>http.ServerResponse\<close>: the first \<open>end\<close> terminates
  the response; a later \<open>end()\<close> without data returns at once, and nothing written
  after the first \<open>end\<close> is sent. \<open>terminations\<close> counts the calls that
  terminated the response.
\<close>

record client =
  clientStatus :: "nat option"
  clientBody :: body
  terminations :: nat

definition sendHead :: "client \<Rightarrow> client" where
  "sendHead c = (case clientStatus c of None \<Rightarrow> c\<lparr>clientStatus := Some 200\<rparr> | Some st \<Rightarrow> c)"

fun deliver :: "client \<Rightarrow> res_call \<Rightarrow> client" where
  "deliver c (SetHeader k v) = c"
| "deliver c (WriteHead st hs) =
     (if terminations c = 0 \<and> clientStatus c = None then c\<lparr>clientStatus := Some st\<rparr> else c)"
| "deliver c (Write b) =
     (if terminations c = 0 then (sendHead c)\<lparr>clientBody := clientBody c @ b\<rparr> else c)"
| "deliver c (End b) =
     (if terminations c = 0
      then (sendHead c)\<lparr>clientBody := clientBody c @ (case b of None \<Rightarrow> [] | Some t \<Rightarrow> t),
                         terminations := 1\<rparr>
      else c)"

definition clientView :: "res_call list \<Rightarrow> client" where
  "clientView calls = foldl deliver \<lparr>clientStatus = None, clientBody = [], terminations = 0\<rparr> calls"

section \<open>The gateway (server.js)\<close>

text \<open>The configuration read from the environment at start.\<close>

record config =
  HTTP_PROXY_PATH :: jsstring
  WEBSOCKET_PROXY_PATH :: jsstring
  CORS_ORIGIN :: jsstring
  RAG_UUID :: jsstring
  UPSTREAM_HTTP_ORIGIN :: jsstring

definition CHAT_STREAM :: jsstring where "CHAT_STREAM = js ''/chat/stream''"
definition CHAT :: jsstring where "CHAT = js ''/chat''"
definition GENERATE_STREAM :: jsstring where "GENERATE_STREAM = js ''/generate/stream''"
definition GENERATE :: jsstring where "GENERATE = js ''/generate''"
definition CA_RAG_INIT :: jsstring where "CA_RAG_INIT = js ''/init''"
definition CHAT_CA_RAG :: jsstring where "CHAT_CA_RAG = js ''/call''"
definition UPDATE_DATA_STREAM :: jsstring where "UPDATE_DATA_STREAM = js ''/update-data-stream''"
definition WEBSOCKET_BACKEND_PATH :: jsstring where "WEBSOCKET_BACKEND_PATH = js ''/websocket''"

text \<open>
  An inbound request as the handlers read it: the method, the path name and the query
  string of \<open>url.parse(req.url)\<close>, the \<open>conversation-id\<close> header, and the message of
  the error reading the request body fails with, if it does.
\<close>

record request =
  reqMethod :: jsstring
  pathname :: "jsstring option"
  search :: "jsstring option"
  conversationId :: "jsstring option"
  bodyFailure :: "jsstring option"

text \<open>
  The result of a path validator. The validators (\<open>validateProxyHttpPath\<close>,
  \<open>validateProxyWebSocketPath\<close> of utils/security/url-validation) are parameters of
  the handlers.
\<close>

record validation =
  isValid :: bool
  error :: jsval

text \<open>
  What the outside answers while one request is handled: the outcome of a \<open>fetch\<close> of
  a URL with a method (a rejection with its message, or a response), and the error the
  WebSocket proxy reports to its callback, if any.
\<close>

datatype fetch_result = Rejected jsstring | Response backend_response

record world =
  fetch :: "jsstring \<Rightarrow> jsstring \<Rightarrow> fetch_result"
  wsProxyError :: "jsstring option"

text \<open>
  What a handler does, in order: a call of a path validator with its verdict, an
  outbound \<open>fetch\<close> (URL, method, body), a call on the response object, a hand-over to
  one of the generic proxies, a write to or the destruction of the raw socket.
\<close>

datatype fetch_body = NoBody | RequestBody | JsonBody jsval

datatype event =
    Validated jsstring bool
  | Fetch jsstring jsstring fetch_body
  | Res res_call
  | NextProxyWeb
  | BackendProxyWeb jsstring
  | NextProxyWs
  | BackendProxyWs jsstring
  | SocketWrite jsstring
  | SocketDestroy

text \<open>
  The \<open>catch\<close> blocks: status 502 unless the headers are sent (they are once any call
  was made on the response), then the error as JSON.
\<close>

definition failWith :: "jsstring \<Rightarrow> jsstring \<Rightarrow> res_call list \<Rightarrow> event list" where
  "failWith label msg calls =
     (if calls = [] then [Res (WriteHead 502 jsonHeaders)] else [])
     @ [Res (End (Some [Stringify (Obj [(js ''error'', Str label), (js ''message'', Str msg)])]))]"

definition bodyless :: "jsstring \<Rightarrow> bool" where
  "bodyless m \<longleftrightarrow> m = js ''GET'' \<or> m = js ''HEAD''"

definition doFetchAndProcess :: "config \<Rightarrow> world \<Rightarrow> request \<Rightarrow> jsstring
    \<Rightarrow> (jsstring \<Rightarrow> backend_response \<Rightarrow> processed) \<Rightarrow> event list" where
  "doFetchAndProcess cfg w req targetUrl processor =
     (case (if bodyless (reqMethod req) then None else bodyFailure req) of
        Some msg \<Rightarrow> failWith (js ''Bad Gateway'') msg []
      | None \<Rightarrow>
          Fetch targetUrl (reqMethod req) (if bodyless (reqMethod req) then NoBody else RequestBody)
          # (case fetch w targetUrl (reqMethod req) of
               Rejected msg \<Rightarrow> failWith (js ''Bad Gateway'') msg []
             | Response backendRes \<Rightarrow>
                 (case processor (CORS_ORIGIN cfg) backendRes of
                    (calls, None) \<Rightarrow> map Res calls
                  | (calls, Some msg) \<Rightarrow>
                      map Res calls @ failWith (js ''Bad Gateway'') msg calls)))"

text \<open>The key of a conversation in the set of initialized conversations.\<close>

definition initKey :: "config \<Rightarrow> request \<Rightarrow> jsstring" where
  "initKey cfg req =
     RAG_UUID cfg @ js ''-''
     @ (case conversationId req of
          None \<Rightarrow> js ''default''
        | Some c \<Rightarrow> if c = [] then js ''default'' else c)"

definition initUrl :: "config \<Rightarrow> jsstring" where
  "initUrl cfg = UPSTREAM_HTTP_ORIGIN cfg @ CA_RAG_INIT"

definition initCall :: "config \<Rightarrow> event" where
  "initCall cfg =
     Fetch (initUrl cfg) (js ''POST'') (JsonBody (Obj [(js ''uuid'', Str (RAG_UUID cfg))]))"

text \<open>
  \<open>doCaRagWithInit\<close>, on the set \<open>initializedCaRagConversations\<close>: the set afterwards
  and what was done.
\<close>

definition doCaRagWithInit :: "config \<Rightarrow> world \<Rightarrow> jsstring set \<Rightarrow> request \<Rightarrow> jsstring
    \<Rightarrow> jsstring set \<times> event list" where
  "doCaRagWithInit cfg w initialized req targetUrl =
     (if initKey cfg req \<notin> initialized then
        (case fetch w (initUrl cfg) (js ''POST'') of
           Rejected msg \<Rightarrow>
             (initialized, initCall cfg # failWith (js ''CA RAG request failed'') msg [])
         | Response initRes \<Rightarrow>
             if \<not> ok initRes then
               (case bodyText initRes of
                  Inl msg \<Rightarrow>
                    (initialized, initCall cfg # failWith (js ''CA RAG request failed'') msg [])
                | Inr detail \<Rightarrow>
                    (initialized,
                     [initCall cfg,
                      Res (WriteHead (status initRes) jsonHeaders),
                      Res (End (Some [Stringify (Obj
                        [(js ''error'', Str (js ''CA RAG initialization failed'')),
                         (js ''detail'', Str detail)])]))]))
             else
               (insert (initKey cfg req) initialized,
                initCall cfg # doFetchAndProcess cfg w req targetUrl processCaRag))
      else (initialized, doFetchAndProcess cfg w req targetUrl processCaRag))"

text \<open>\<open>url.parse(req.url).pathname || '/'\<close> and \<open>parsedUrl.search || ''\<close>.\<close>

definition requestPath :: "request \<Rightarrow> jsstring" where
  "requestPath req = (case pathname req of None \<Rightarrow> js ''/'' | Some p \<Rightarrow> if p = [] then js ''/'' else p)"

definition requestSearch :: "request \<Rightarrow> jsstring" where
  "requestSearch req = (case search req of None \<Rightarrow> [] | Some q \<Rightarrow> q)"

definition preflight :: "config \<Rightarrow> event list" where
  "preflight cfg =
     [Res (SetHeader (js ''Access-Control-Allow-Origin'') (CORS_ORIGIN cfg)),
      Res (SetHeader (js ''Access-Control-Allow-Methods'') (js ''GET, POST, PUT, DELETE, OPTIONS'')),
      Res (SetHeader (js ''Access-Control-Allow-Headers'')
             (js ''Content-Type, Authorization, Conversation-Id, X-Timezone, User-Message-ID'')),
      Res (SetHeader (js ''Access-Control-Allow-Credentials'') (js ''true'')),
      Res (WriteHead 204 []),
      Res (End None)]"

definition forbidden :: "validation \<Rightarrow> event list" where
  "forbidden pathValidation =
     [Res (WriteHead 403 jsonHeaders),
      Res (End (Some [Stringify (Obj [(js ''error'', Str (js ''Forbidden'')),
                                      (js ''message'', error pathValidation)])]))]"

text \<open>
  The routing of a validated request by its backend path: the four core routes each
  with their processor, the stateful-workflow call behind its initialization, the
  data-stream update to the Next.js server, anything else to the transparent backend
  proxy. The result is the set of initialized conversations afterwards and what was done.
\<close>

definition routeRequest :: "config \<Rightarrow> world \<Rightarrow> jsstring set \<Rightarrow> request \<Rightarrow> jsstring \<Rightarrow> jsstring
    \<Rightarrow> jsstring set \<times> event list" where
  "routeRequest cfg w initialized req backendPath targetUrl =
     (if backendPath = CHAT_STREAM then
        (initialized, doFetchAndProcess cfg w req targetUrl processChatStream)
      else if backendPath = CHAT then
        (initialized, doFetchAndProcess cfg w req targetUrl processChat)
      else if backendPath = GENERATE_STREAM then
        (initialized, doFetchAndProcess cfg w req targetUrl processGenerateStream)
      else if backendPath = GENERATE then
        (initialized, doFetchAndProcess cfg w req targetUrl processGenerate)
      else if backendPath = CHAT_CA_RAG then
        doCaRagWithInit cfg w initialized req targetUrl
      else if backendPath = UPDATE_DATA_STREAM then (initialized, [NextProxyWeb])
      else (initialized, [BackendProxyWeb (backendPath @ requestSearch req)]))"

text \<open>
  The request handler of the HTTP server, on the set of initialized conversations.
\<close>

definition handleRequest :: "config \<Rightarrow> (jsstring \<Rightarrow> validation) \<Rightarrow> world \<Rightarrow> jsstring set \<Rightarrow> request
    \<Rightarrow> jsstring set \<times> event list" where
  "handleRequest cfg validateProxyHttpPath w initialized req =
     (if String_startsWith (requestPath req) (HTTP_PROXY_PATH cfg @ js ''/'') then
        if reqMethod req = js ''OPTIONS'' then (initialized, preflight cfg)
        else if \<not> isValid (validateProxyHttpPath (requestPath req)) then
          (initialized,
           Validated (requestPath req) False # forbidden (validateProxyHttpPath (requestPath req)))
        else
          (let backendPath =
                 (if drop (length (HTTP_PROXY_PATH cfg)) (requestPath req) = [] then js ''/''
                  else drop (length (HTTP_PROXY_PATH cfg)) (requestPath req));
               targetUrl = UPSTREAM_HTTP_ORIGIN cfg @ backendPath @ requestSearch req
           in case routeRequest cfg w initialized req backendPath targetUrl of
                (after, done) \<Rightarrow> (after, Validated (requestPath req) True # done))
      else (initialized, [NextProxyWeb]))"

text \<open>The handler of WebSocket upgrades.\<close>

definition handleUpgrade :: "config \<Rightarrow> (jsstring \<Rightarrow> validation) \<Rightarrow> world \<Rightarrow> request \<Rightarrow> event list" where
  "handleUpgrade cfg validateProxyWebSocketPath w req =
     (if requestPath req = WEBSOCKET_PROXY_PATH cfg
         \<or> String_startsWith (requestPath req) (WEBSOCKET_PROXY_PATH cfg @ js ''?'') then
        if \<not> isValid (validateProxyWebSocketPath (requestPath req)) then
          [Validated (requestPath req) False,
           SocketWrite (js ''HTTP/1.1 403 Forbidden'' @ [13, 10, 13, 10]),
           SocketDestroy]
        else
          Validated (requestPath req) True
          # BackendProxyWs (WEBSOCKET_BACKEND_PATH @ requestSearch req)
          # (case wsProxyError w of
               None \<Rightarrow> []
             | Some msg \<Rightarrow>
                 [SocketWrite (js ''HTTP/1.1 502 Bad Gateway'' @ [13, 10, 13, 10]), SocketDestroy])
      else
        NextProxyWs # (case wsProxyError w of None \<Rightarrow> [] | Some msg \<Rightarrow> [SocketDestroy]))"

text \<open>What hands a request over to an upstream: a \<open>fetch\<close> or a generic proxy.\<close>

fun forwards :: "event \<Rightarrow> bool" where
  "forwards (Fetch u m b) = True"
| "forwards NextProxyWeb = True"
| "forwards (BackendProxyWeb u) = True"
| "forwards NextProxyWs = True"
| "forwards (BackendProxyWs u) = True"
| "forwards e = False"

text \<open>
  For stating the properties of the stateful-workflow-call route: the URL a request to
  it is forwarded to, the requests that reach \<open>doCaRagWithInit\<close> (the path is the
  prefix followed by the route, the method is not the preflight one, the validator
  accepts), the events that are a \<open>fetch\<close> of the init URL, and whether the outside
  answers the init call with success.
\<close>

definition callUrl :: "config \<Rightarrow> request \<Rightarrow> jsstring" where
  "callUrl cfg req = UPSTREAM_HTTP_ORIGIN cfg @ CHAT_CA_RAG @ requestSearch req"

definition isCallRequest :: "config \<Rightarrow> (jsstring \<Rightarrow> validation) \<Rightarrow> request \<Rightarrow> bool" where
  "isCallRequest cfg v req \<longleftrightarrow>
     requestPath req = HTTP_PROXY_PATH cfg @ CHAT_CA_RAG
     \<and> reqMethod req \<noteq> js ''OPTIONS''
     \<and> isValid (v (requestPath req))"

fun isInitFetch :: "config \<Rightarrow> event \<Rightarrow> bool" where
  "isInitFetch cfg (Fetch u m b) = (u = initUrl cfg)"
| "isInitFetch cfg e = False"

definition initSucceeds :: "config \<Rightarrow> world \<Rightarrow> bool" where
  "initSucceeds cfg w =
     (case fetch w (initUrl cfg) (js ''POST'') of Rejected msg \<Rightarrow> False | Response r \<Rightarrow> ok r)"

subsection \<open>Handlers that overlap\<close>

text \<open>
  The request handler is an \<open>async\<close> function: it runs until it awaits, and the
  handlers of other requests run before it is resumed. \<open>doCaRagWithInit\<close> reads the
  set of initialized conversations (\<open>has\<close>) before it awaits the init call and
  writes it (\<open>add\<close>) after, so what a handler finds in the set depends on the
  handlers that ran in between. The handler is therefore also given in the two parts
  that this \<open>await\<close> separates. The other suspension points of a handler (reading the
  request body, the forwarded \<open>fetch\<close>, reading the body of a response) lie in parts
  that neither read nor write the set; they are not made suspension points here.

  A handler has not started yet, or is suspended at \<open>await fetch(initUrl)\<close>, or has
  finished.
\<close>

datatype stage = Arrived | AwaitingInit | Finished

text \<open>
  The handler from its start to its first suspension, on the set as it is then: a
  request that reaches \<open>doCaRagWithInit\<close> and does not find its key in the set issues
  the init call and is suspended; every other request is handled to its end and
  leaves the set as it is.
\<close>

definition startRequest :: "config \<Rightarrow> (jsstring \<Rightarrow> validation) \<Rightarrow> world \<Rightarrow> jsstring set \<Rightarrow> request
    \<Rightarrow> stage \<times> event list" where
  "startRequest cfg validateProxyHttpPath w initialized req =
     (if isCallRequest cfg validateProxyHttpPath req \<and> initKey cfg req \<notin> initialized then
        (AwaitingInit, [Validated (requestPath req) True, initCall cfg])
      else (Finished, snd (handleRequest cfg validateProxyHttpPath w initialized req)))"

text \<open>
  The handler from the moment the init call is answered, on the set as it is then:
  the rest of \<open>doCaRagWithInit\<close> from the test of \<open>initRes.ok\<close> on, with its
  \<open>catch\<close> block. The second part of a handler that found its key in the set is never
  run: such a handler is not suspended at the init call.
\<close>

definition resumeInit :: "config \<Rightarrow> world \<Rightarrow> jsstring set \<Rightarrow> request \<Rightarrow> jsstring set \<times> event list" where
  "resumeInit cfg w initialized req =
     (case fetch w (initUrl cfg) (js ''POST'') of
        Rejected msg \<Rightarrow> (initialized, failWith (js ''CA RAG request failed'') msg [])
      | Response initRes \<Rightarrow>
          if \<not> ok initRes then
            (case bodyText initRes of
               Inl msg \<Rightarrow> (initialized, failWith (js ''CA RAG request failed'') msg [])
             | Inr detail \<Rightarrow>
                 (initialized,
                  [Res (WriteHead (status initRes) jsonHeaders),
                   Res (End (Some [Stringify (Obj
                     [(js ''error'', Str (js ''CA RAG initialization failed'')),
                      (js ''detail'', Str detail)])]))]))
          else
            (insert (initKey cfg req) initialized,
             doFetchAndProcess cfg w req (callUrl cfg req) processCaRag))"

text \<open>
  A request in the server: what the outside answers to it, the request, and how far
  its handler has come. \<open>resumeTask\<close> lets the handler run to its next suspension or
  to its end: the set afterwards, the task afterwards, and what was done.
\<close>

type_synonym task = "world \<times> request \<times> stage"

fun resumeTask :: "config \<Rightarrow> (jsstring \<Rightarrow> validation) \<Rightarrow> jsstring set \<Rightarrow> task
    \<Rightarrow> jsstring set \<times> task \<times> event list" where
  "resumeTask cfg v initialized (w, req, Arrived) =
     (case startRequest cfg v w initialized req of
        (st, evs) \<Rightarrow> (initialized, (w, req, st), evs))"
| "resumeTask cfg v initialized (w, req, AwaitingInit) =
     (case resumeInit cfg w initialized req of
        (after, evs) \<Rightarrow> (after, (w, req, Finished), evs))"
| "resumeTask cfg v initialized (w, req, Finished) = (initialized, (w, req, Finished), [])"

text \<open>
  The event loop: a schedule names, step by step, the request whose handler runs next,
  to its next suspension or to its end. The result is the set and the tasks at the
  end of the schedule, and what was done in order, each event with the number of the
  request whose handler did it.
\<close>

fun runSchedule :: "config \<Rightarrow> (jsstring \<Rightarrow> validation) \<Rightarrow> nat list \<Rightarrow> jsstring set \<Rightarrow> task list
    \<Rightarrow> jsstring set \<times> task list \<times> (nat \<times> event) list" where
  "runSchedule cfg v [] initialized tasks = (initialized, tasks, [])"
| "runSchedule cfg v (i # schedule) initialized tasks =
     (if i < length tasks then
        (case resumeTask cfg v initialized (tasks ! i) of
           (after, t, evs) \<Rightarrow>
             (case runSchedule cfg v schedule after (tasks[i := t]) of
                (final, tasks', trace) \<Rightarrow> (final, tasks', map (Pair i) evs @ trace)))
      else runSchedule cfg v schedule initialized tasks)"

text \<open>The init calls in a trace, and those issued by the handler of one request.\<close>

definition initCalls :: "config \<Rightarrow> (nat \<times> event) list \<Rightarrow> (nat \<times> event) list" where
  "initCalls cfg trace = filter (\<lambda>(i, e). isInitFetch cfg e) trace"

definition initCallsOf :: "config \<Rightarrow> nat \<Rightarrow> (nat \<times> event) list \<Rightarrow> (nat \<times> event) list" where
  "initCallsOf cfg i trace = filter (\<lambda>(j, e). j = i \<and> isInitFetch cfg e) trace"

section \<open>Properties of the payload builders\<close>

text \<open>The equations that evaluate the parser and the builders on a given input.\<close>

lemmas json_eval =
  js_def JSON_parse_def tokenize.simps nextToken_def lexNumber_def lexFraction_def
  lexExponent_def isDigit_def digitsValue_def scale10_def hex4_def hexValue_def unescape_def
  isJsonSpace_def keyBefore_def arrayIndex_def Let_def

lemmas builder_eval =
  String_trim_def isWhiteSpace_def parseOptionalParams_def mergeParams_def RESERVED_FIELDS_def
  assignProp_def optGet_def buildChatPayload_def buildChatStreamPayload_def payloadField_def
  keyValueParams_def addPair_def coerceValue_def Number_of_def decimalValue_def radixValue_def
  lastMessage_def

lemma map_of_defineProperty:
  "map_of (defineProperty es k v) k' = (if k' = k then Some v else map_of es k')"
  by (induction es) auto

lemma map_of_assignProp:
  "map_of (assignProp es k v) k' =
     (if k' = k \<and> k \<noteq> js ''__proto__'' then Some v else map_of es k')"
  by (simp add: assignProp_def map_of_defineProperty)

lemma merge_keeps_reserved:
  "k' \<in> set RESERVED_FIELDS \<Longrightarrow>
   map_of (foldl (\<lambda>p key. if key \<in> set RESERVED_FIELDS then p
                            else assignProp p key (f key)) payload keys) k'
     = map_of payload k'"
  by (induction keys arbitrary: payload) (auto simp: map_of_assignProp)

lemma merge_assigns_other:
  "k' \<notin> set RESERVED_FIELDS \<Longrightarrow> k' \<noteq> js ''__proto__'' \<Longrightarrow>
   map_of (foldl (\<lambda>p key. if key \<in> set RESERVED_FIELDS then p
                            else assignProp p key (f key)) payload keys) k'
     = (if k' \<in> set keys then Some (f k') else map_of payload k')"
  by (induction keys arbitrary: payload) (auto simp: map_of_assignProp)

lemma field_names:
  "js ''model'' \<notin> set RESERVED_FIELDS" "js ''model'' \<noteq> js ''__proto__''"
  "js ''messages'' \<in> set RESERVED_FIELDS" "js ''stream'' \<in> set RESERVED_FIELDS"
  "js ''messages'' \<noteq> js ''model''" "js ''stream'' \<noteq> js ''model''"
  "js ''temperature'' \<noteq> js ''model''" "js ''model'' \<noteq> js ''messages''"
  "js ''model'' \<noteq> js ''stream''" "js ''model'' \<noteq> js ''temperature''"
  "js ''stream'' \<noteq> js ''messages''" "js ''messages'' \<noteq> js ''stream''"
  by (simp_all add: RESERVED_FIELDS_def js_def)

lemma chat_fields:
  "payloadField (buildChatPayload messages useChatHistory optionalParams) (js ''messages'')
     = Some (Arr (if useChatHistory then messages else [lastMessage messages]))"
  "payloadField (buildChatPayload messages useChatHistory optionalParams) (js ''stream'')
     = Some (Bool False)"
  "payloadField (buildChatPayload messages useChatHistory optionalParams) (js ''model'')
     = Some (case suppliedValue optionalParams (js ''model'') of
               None \<Rightarrow> Str (js ''nvidia/nemotron'')
             | Some v \<Rightarrow> v)"
    apply (simp add: payloadField_def buildChatPayload_def Let_def mergeParams_def optGet_def merge_keeps_reserved field_names split: option.splits sum.splits)
    apply (simp add: payloadField_def buildChatPayload_def Let_def mergeParams_def optGet_def merge_keeps_reserved field_names split: option.splits sum.splits)
    apply (simp add: payloadField_def buildChatPayload_def Let_def mergeParams_def optGet_def merge_assigns_other suppliedValue_def field_names split: option.splits sum.splits)
  done


lemma stream_fields:
  "payloadField (buildChatStreamPayload messages useChatHistory optionalParams) (js ''messages'')
     = Some (Arr (if useChatHistory then messages else [lastMessage messages]))"
  "payloadField (buildChatStreamPayload messages useChatHistory optionalParams) (js ''stream'')
     = Some (Bool True)"
  "payloadField (buildChatStreamPayload messages useChatHistory optionalParams) (js ''model'')
     = Some (case suppliedValue optionalParams (js ''model'') of
               None \<Rightarrow> Str (js ''nvidia/nemotron'')
             | Some v \<Rightarrow> v)"
    apply (simp add: payloadField_def buildChatStreamPayload_def Let_def mergeParams_def optGet_def merge_keeps_reserved field_names split: option.splits sum.splits)
    apply (simp add: payloadField_def buildChatStreamPayload_def Let_def mergeParams_def optGet_def merge_keeps_reserved field_names split: option.splits sum.splits)
    apply (simp add: payloadField_def buildChatStreamPayload_def Let_def mergeParams_def optGet_def merge_assigns_other suppliedValue_def field_names split: option.splits sum.splits)
  done

text \<open>
  Claim C1, as the code has it. For every message list and every optional-parameters
  string (or none), the payloads of \<open>buildChatPayload\<close> and \<open>buildChatStreamPayload\<close>
  carry the builder's own \<open>messages\<close> (the whole list with chat history, else the last
  message alone) and the builder's own \<open>stream\<close> flag (false for chat, true for
  chat-stream), whatever the optional parameters hold under these two keys. The
  \<open>model\<close> field is not reserved: it is the fixed identifier unless the optional
  parameters, as \<open>parseOptionalParams\<close> reads them, have an own \<open>model\<close> key, whose
  value then replaces it.
\<close>

theorem chat_payload_fields:
  "payloadField (buildChatPayload messages useChatHistory optionalParams) (js ''messages'')
     = Some (Arr (if useChatHistory then messages else [lastMessage messages]))
   \<and> payloadField (buildChatPayload messages useChatHistory optionalParams) (js ''stream'')
     = Some (Bool False)
   \<and> payloadField (buildChatStreamPayload messages useChatHistory optionalParams) (js ''messages'')
     = Some (Arr (if useChatHistory then messages else [lastMessage messages]))
   \<and> payloadField (buildChatStreamPayload messages useChatHistory optionalParams) (js ''stream'')
     = Some (Bool True)
   \<and> payloadField (buildChatPayload messages useChatHistory optionalParams) (js ''model'')
     = Some (case suppliedValue optionalParams (js ''model'') of
               None \<Rightarrow> Str (js ''nvidia/nemotron'')
             | Some v \<Rightarrow> v)
   \<and> payloadField (buildChatStreamPayload messages useChatHistory optionalParams) (js ''model'')
     = Some (case suppliedValue optionalParams (js ''model'') of
               None \<Rightarrow> Str (js ''nvidia/nemotron'')
             | Some v \<Rightarrow> v)"
  by (simp only: chat_fields stream_fields simp_thms)


lemma split_on_no_sep: "sep \<notin> set s \<Longrightarrow> split_on sep s = [s]"
  by (induction s) auto

lemma split_on_nonempty: "split_on c s \<noteq> []"
  by (induction s) (auto split: list.splits)







text \<open>
  The claim as stated fails for \<open>model\<close>: the optional parameters
  \<open>{"model":"other"}\<close> replace the fixed model identifier in both payloads.
\<close>

theorem model_override_counterexample:
  \<open>payloadField (buildChatPayload [Str (js ''hi'')] True (Some (js ''{"model":"other"}'')))
      (js ''model'') = Some (Str (js ''other''))
   \<and> payloadField (buildChatStreamPayload [Str (js ''hi'')] True (Some (js ''{"model":"other"}'')))
      (js ''model'') = Some (Str (js ''other''))
   \<and> Str (js ''other'') \<noteq> Str (js ''nvidia/nemotron'')\<close>
  by (simp add: json_eval builder_eval)












section \<open>Properties of the processors of whole bodies\<close>

text \<open>The equations that evaluate the processors on a given response.\<close>

lemmas processor_eval =
  ok_def bodyText_def mirrorFailure_def jsonHeaders_def responseHeaders_def caRagHeaders_def
  streamHeaders_def processChat_def processGenerate_def processCaRag_def processChatStream_def
  processGenerateStream_def processStream_def chatStreamLine_def chatStreamData_def
  generateStreamLine_def generateStreamData_def isDone_def processCommonLineTypes_def
  processRemainingBuffer_def String_startsWith_def String_trim_def isWhiteSpace_def
  optGet_def js_or_def clientView_def sendHead_def

text \<open>
  Claim C7. For each of the five processors and every backend response whose status is
  not a success and whose body text is \<open>t\<close>: the processor writes the head with the
  backend's status and ends the response with \<open>t\<close> itself, so the client receives
  exactly that status and that text.
\<close>

theorem failure_mirrored:
  assumes "\<not> ok backendRes" and "bodyText backendRes = Inr t"
  shows "processChat corsOrigin backendRes
           = ([WriteHead (status backendRes) jsonHeaders, End (Some [Lit t])], None)
       \<and> processChatStream corsOrigin backendRes
           = ([WriteHead (status backendRes) jsonHeaders, End (Some [Lit t])], None)
       \<and> processGenerate corsOrigin backendRes
           = ([WriteHead (status backendRes) jsonHeaders, End (Some [Lit t])], None)
       \<and> processGenerateStream corsOrigin backendRes
           = ([WriteHead (status backendRes) jsonHeaders, End (Some [Lit t])], None)
       \<and> processCaRag corsOrigin backendRes
           = ([WriteHead (status backendRes) jsonHeaders, End (Some [Lit t])], None)
       \<and> clientView [WriteHead (status backendRes) jsonHeaders, End (Some [Lit t])]
           = \<lparr>clientStatus = Some (status backendRes), clientBody = [Lit t], terminations = 1\<rparr>"
  using assms
  by (simp add: processChat_def processChatStream_def processGenerate_def
        processGenerateStream_def processCaRag_def mirrorFailure_def clientView_def sendHead_def)

text \<open>The theorem at a response with status 500 and the body \<open>boom\<close> in two chunks.\<close>

theorem failure_mirrored_witness:
  "processCaRag (js ''http://localhost:3000'')
     \<lparr>status = 500, traceId = None, body = Some [js ''bo'', js ''om''], bodyError = None\<rparr>
   = ([WriteHead 500 jsonHeaders, End (Some [Lit (js ''boom'')])], None)"
proof -
  let ?r = "\<lparr>status = 500, traceId = None, body = Some [js ''bo'', js ''om''], bodyError = None\<rparr>"
  have a: "\<not> ok ?r"
    by (simp add: ok_def)
  have b: "bodyText ?r = Inr (js ''boom'')"
    by (simp add: bodyText_def js_def)
  from failure_mirrored [OF a b, of "js ''http://localhost:3000''"] show ?thesis
    by simp
qed

text \<open>
  Claim C8. For every successful backend response whose body text is not valid JSON,
  the chat, generate and stateful-workflow-call processors answer with status 200 and the
  body text unchanged; they do not throw.
\<close>

theorem invalid_json_passed_through:
  assumes "ok backendRes" and "bodyText backendRes = Inr data" and "JSON_parse data = None"
  shows "processChat corsOrigin backendRes
           = ([WriteHead 200 (responseHeaders (js ''text/plain; charset=utf-8'') corsOrigin backendRes),
               End (Some [Lit data])], None)
       \<and> processGenerate corsOrigin backendRes
           = ([WriteHead 200
                 (responseHeaders (js ''application/json; charset=utf-8'') corsOrigin backendRes),
               End (Some [Lit data])], None)
       \<and> processCaRag corsOrigin backendRes
           = ([WriteHead 200 (caRagHeaders corsOrigin), End (Some [Lit data])], None)
       \<and> (\<forall>hs. clientView [WriteHead 200 hs, End (Some [Lit data])]
           = \<lparr>clientStatus = Some 200, clientBody = [Lit data], terminations = 1\<rparr>)"
  using assms
  by (simp add: processChat_def processGenerate_def processCaRag_def clientView_def sendHead_def)

text \<open>The theorem at a body that is no JSON.\<close>

theorem invalid_json_witness:
  "processChat (js ''*'')
     \<lparr>status = 200, traceId = None, body = Some [js ''<html>oops''], bodyError = None\<rparr>
   = ([WriteHead 200
         [(js ''Content-Type'', js ''text/plain; charset=utf-8''),
          (js ''Access-Control-Allow-Origin'', js ''*''),
          (js ''Access-Control-Allow-Credentials'', js ''true'')],
       End (Some [Lit (js ''<html>oops'')])], None)"
proof -
  let ?r = "\<lparr>status = 200, traceId = None, body = Some [js ''<html>oops''], bodyError = None\<rparr>"
  have a: "ok ?r"
    by (simp add: ok_def)
  have b: "bodyText ?r = Inr (js ''<html>oops'')"
    by (simp add: bodyText_def)
  have c: "JSON_parse (js ''<html>oops'') = None"
    by (simp add: json_eval)
  from invalid_json_passed_through [OF a b c, of "js ''*''"] show ?thesis
    by (simp add: responseHeaders_def)
qed


text \<open>
  Fallback between the extraction fields goes by truthiness. For a successful JSON body
  whose \<open>state.chat.answer\<close> is the empty string, the stateful-workflow-call processor
  emits the top-level \<open>answer\<close> when that is truthy and the raw body text otherwise.
  For a successful JSON body whose first choice's message content is the empty string,
  the chat processor emits the first truthy one of \<open>message\<close>, \<open>answer\<close> and
  \<open>value\<close> when there is one.
\<close>

lemma empty_field_falls_through:
  assumes "ok backendRes" and "bodyText backendRes = Inr data"
    and "JSON_parse data = Some parsed"
  shows "(optGet (optGet (optGet parsed (js ''state'')) (js ''chat'')) (js ''answer'') = Str [] \<longrightarrow>
            processCaRag corsOrigin backendRes
              = ([WriteHead 200 (caRagHeaders corsOrigin),
                  (if truthy (optGet parsed (js ''answer''))
                   then endWith (optGet parsed (js ''answer''))
                   else End (Some [Lit data]))], None))
       \<and> (optGet (optGet (optGet (optGet parsed (js ''choices'')) (js ''0'')) (js ''message''))
               (js ''content'') = Str []
            \<and> truthy (js_or (optGet parsed (js ''message''))
                       (js_or (optGet parsed (js ''answer'')) (optGet parsed (js ''value'')))) \<longrightarrow>
            processChat corsOrigin backendRes
              = ([WriteHead 200
                    (responseHeaders (js ''text/plain; charset=utf-8'') corsOrigin backendRes),
                  endWith (js_or (optGet parsed (js ''message''))
                            (js_or (optGet parsed (js ''answer''))
                                   (optGet parsed (js ''value''))))], None))"
  using assms
  by (simp add: processCaRag_def processChat_def js_or_def)

text \<open>
  When no field of the chat processor's chain is truthy, its content is \<open>undefined\<close>
  and the response ends without a body, for every successful JSON body.
\<close>

lemma chat_no_truthy_field:
  assumes "ok backendRes" and "bodyText backendRes = Inr data"
    and "JSON_parse data = Some parsed"
    and "optGet (optGet (optGet (optGet parsed (js ''choices'')) (js ''0'')) (js ''message''))
           (js ''content'') = Str []"
    and "optGet parsed (js ''message'') = Undefined"
    and "optGet parsed (js ''answer'') = Undefined"
    and "optGet parsed (js ''value'') = Undefined"
  shows "processChat corsOrigin backendRes
           = ([WriteHead 200
                 (responseHeaders (js ''text/plain; charset=utf-8'') corsOrigin backendRes),
               End None], None)"
  using assms
  by (simp add: processChat_def js_or_def)

text \<open>
  Claim C10. The body \<open>{"choices":[{"message":{"content":""}}]}\<close> has the preferred
  field of the chat processor present and empty, and no other field of its chain. The
  processor falls through the chain by truthiness, as the claim says, but the chain
  ends at \<open>parsed?.value\<close>: the content is \<open>undefined\<close>, \<open>res.end\<close> is called with
  \<open>JSON.stringify(undefined)\<close>, and the client receives an empty body, not the raw
  JSON text. The stateful-workflow-call processor, whose chain ends in \<open>|| data\<close>,
  sends the raw text of \<open>{"state":{"chat":{"answer":""}}}\<close>.
\<close>

theorem chat_empty_content_no_body:
  \<open>processChat (js ''*'')
     \<lparr>status = 200, traceId = None,
      body = Some [js ''{"choices":[{"message":{"content":""}}]}''], bodyError = None\<rparr>
   = ([WriteHead 200
         [(js ''Content-Type'', js ''text/plain; charset=utf-8''),
          (js ''Access-Control-Allow-Origin'', js ''*''),
          (js ''Access-Control-Allow-Credentials'', js ''true'')],
       End None], None)
   \<and> clientBody (clientView
         [WriteHead 200
            [(js ''Content-Type'', js ''text/plain; charset=utf-8''),
             (js ''Access-Control-Allow-Origin'', js ''*''),
             (js ''Access-Control-Allow-Credentials'', js ''true'')],
          End None]) = []
   \<and> [] \<noteq> [Lit (js ''{"choices":[{"message":{"content":""}}]}'')]
   \<and> processCaRag (js ''*'')
     \<lparr>status = 200, traceId = None, body = Some [js ''{"state":{"chat":{"answer":""}}}''],
      bodyError = None\<rparr>
   = ([WriteHead 200 (caRagHeaders (js ''*'')),
       End (Some [Lit (js ''{"state":{"chat":{"answer":""}}}'')])], None)\<close>
  by (simp add: json_eval processor_eval)

section \<open>Properties of the stream processors\<close>

lemma split_on_append:
  "split_on c (s @ t) = butlast (split_on c s) @ split_on c (last (split_on c s) @ t)"
proof (induction s)
  case Nil
  show ?case by simp
next
  case (Cons a s)
  obtain q qs where q: "split_on c s = q # qs"
    using split_on_nonempty [of c s] by (cases "split_on c s") auto
  show ?case
  proof (cases "a = c")
    case True
    with Cons q show ?thesis by simp
  next
    case False
    show ?thesis
    proof (cases qs)
      case Nil
      with Cons q False show ?thesis by simp
    next
      case (Cons r rs)
      with Cons.IH q False show ?thesis by simp
    qed
  qed
qed

lemma last_split_no_sep: "c \<notin> set (last (split_on c s))"
proof (induction s)
  case Nil
  show ?case by simp
next
  case (Cons a s)
  obtain q qs where q: "split_on c s = q # qs"
    using split_on_nonempty [of c s] by (cases "split_on c s") auto
  with Cons show ?case
    by (cases qs) auto
qed

lemma butlast_split_append:
  "butlast (split_on c (s @ t))
     = butlast (split_on c s) @ butlast (split_on c (last (split_on c s) @ t))"
  by (subst split_on_append) (simp add: butlast_append split_on_nonempty)

lemma last_split_append:
  "last (split_on c (s @ t)) = last (split_on c (last (split_on c s) @ t))"
  by (subst split_on_append) (simp add: split_on_nonempty)

lemma forLines_append:
  "forLines h (xs @ ys) =
     (case forLines h xs of
        (cs, True) \<Rightarrow> (cs, True)
      | (cs, False) \<Rightarrow> (case forLines h ys of (cs', r) \<Rightarrow> (cs @ cs', r)))"
  by (induction xs) (auto split: option.splits prod.splits bool.splits)

text \<open>The read loop does not depend on how the body is cut into chunks.\<close>

lemma readLoop_lines:
  assumes "10 \<notin> set buffer"
  shows "readLoop h buffer cks =
     (case forLines h (butlast (split_on 10 (buffer @ concat cks))) of
        (cs, True) \<Rightarrow> (cs, None)
      | (cs, False) \<Rightarrow> (cs, Some (last (split_on 10 (buffer @ concat cks)))))"
  using assms
proof (induction cks arbitrary: buffer)
  case Nil
  then show ?case by (simp add: split_on_no_sep)
next
  case (Cons chunk rest)
  have n: "10 \<notin> set (last (split_on 10 (buffer @ chunk)))"
    by (rule last_split_no_sep)
  have b: "butlast (split_on 10 (buffer @ concat (chunk # rest)))
     = butlast (split_on 10 (buffer @ chunk))
       @ butlast (split_on 10 (last (split_on 10 (buffer @ chunk)) @ concat rest))"
    using butlast_split_append [of 10 "buffer @ chunk" "concat rest"] by simp
  have l: "last (split_on 10 (buffer @ concat (chunk # rest)))
     = last (split_on 10 (last (split_on 10 (buffer @ chunk)) @ concat rest))"
    using last_split_append [of 10 "buffer @ chunk" "concat rest"] by simp
  show ?case
    unfolding b l forLines_append
    by (simp add: Cons.IH [OF n] Let_def split: prod.splits bool.splits)
qed


lemma processStream_lines:
  assumes "body backendRes = Some cks"
  shows "processStream h corsOrigin backendRes =
     (case forLines h (butlast (split_on 10 (concat cks))) of
        (cs, True) \<Rightarrow> (WriteHead 200 (streamHeaders corsOrigin) # cs @ [End None], None)
      | (cs, False) \<Rightarrow>
          (case bodyError backendRes of
             Some msg \<Rightarrow> (WriteHead 200 (streamHeaders corsOrigin) # cs @ [End None], None)
           | None \<Rightarrow>
               (WriteHead 200 (streamHeaders corsOrigin) # cs
                  @ processRemainingBuffer (last (split_on 10 (concat cks)))
                  @ [End None], None)))"
  using readLoop_lines [of "[]" h cks] assms
  by (simp add: processStream_def split: prod.splits bool.splits)

text \<open>
  A successful response without a body: both stream processors write the head and
  reject at \<open>getReader\<close>, with the response left open.
\<close>

lemma processStream_null_body:
  assumes "ok backendRes" and "body backendRes = None"
  shows "processChatStream corsOrigin backendRes
           = ([WriteHead 200 (streamHeaders corsOrigin)], Some nullBodyMessage)"
    and "processGenerateStream corsOrigin backendRes
           = ([WriteHead 200 (streamHeaders corsOrigin)], Some nullBodyMessage)"
  using assms
  by (simp_all add: processChatStream_def processGenerateStream_def processStream_def)

text \<open>
  Claim C5. For a successful backend response whose body stream, however it is cut into
  chunks, is the line \<open>data: {"choices":[{"delta":{"content":"a"}}]}\<close> followed by the
  line \<open>data: [DONE]\<close>, each ended by a newline: \<open>processChatStream\<close> writes the head,
  writes the text \<open>a\<close>, and writes nothing more. \<open>res.end()\<close> is called at the
  sentinel and once more by the \<open>finally\<close> block; the first call terminates the
  response and the second finds it terminated, so the client receives exactly \<open>a\<close>
  and the response is terminated once.
\<close>

theorem chat_stream_round_trip:
  assumes "ok backendRes" and "body backendRes = Some cks"
    and \<open>concat cks
           = js ''data: {"choices":[{"delta":{"content":"a"}}]}'' @ [10] @ js ''data: [DONE]'' @ [10]\<close>
  shows "processChatStream corsOrigin backendRes
           = ([WriteHead 200 (streamHeaders corsOrigin), Write [Lit (js ''a'')], End None, End None],
              None)
       \<and> clientView [WriteHead 200 (streamHeaders corsOrigin), Write [Lit (js ''a'')],
                      End None, End None]
           = \<lparr>clientStatus = Some 200, clientBody = [Lit (js ''a'')], terminations = 1\<rparr>"
proof -
  let ?l1 = \<open>js ''data: {"choices":[{"delta":{"content":"a"}}]}''\<close>
  let ?l2 = "js ''data: [DONE]''"
  have s: "split_on 10 (?l1 @ [10] @ ?l2 @ [10]) = [?l1, ?l2, []]"
    by (simp add: js_def)
  have 1: "chatStreamLine ?l1 = Some [Write [Lit (js ''a'')]]"
    by (simp add: json_eval processor_eval)
  have 2: "chatStreamLine ?l2 = None"
    by (simp add: json_eval processor_eval)
  have f: "forLines chatStreamLine [?l1, ?l2] = ([Write [Lit (js ''a'')], End None], True)"
    by (simp add: 1 2)
  from assms(1) have "processChatStream corsOrigin backendRes
      = processStream chatStreamLine corsOrigin backendRes"
    by (simp add: processChatStream_def)
  also have "\<dots> = ([WriteHead 200 (streamHeaders corsOrigin), Write [Lit (js ''a'')],
                      End None, End None], None)"
    unfolding processStream_lines [OF assms(2)] assms(3) s using f by simp
  finally show ?thesis
    by (simp add: clientView_def sendHead_def)
qed

text \<open>The theorem at a body cut into three chunks inside the lines.\<close>

theorem chat_stream_round_trip_witness:
  \<open>processChatStream (js ''*'')
     \<lparr>status = 200, traceId = None,
      body = Some [js ''data: {"choi'',
                   js ''ces":[{"delta":{"content":"a"}}]}'' @ [10] @ js ''data: [DO'',
                   js ''NE]'' @ [10]],
      bodyError = None\<rparr>
   = ([WriteHead 200 (streamHeaders (js ''*'')), Write [Lit (js ''a'')], End None, End None], None)\<close>
proof -
  let ?r = \<open>\<lparr>status = 200, traceId = None,
      body = Some [js ''data: {"choi'',
                   js ''ces":[{"delta":{"content":"a"}}]}'' @ [10] @ js ''data: [DO'',
                   js ''NE]'' @ [10]],
      bodyError = None\<rparr>\<close>
  have a: "ok ?r"
    by (simp add: ok_def)
  have b: \<open>body ?r = Some [js ''data: {"choi'',
                   js ''ces":[{"delta":{"content":"a"}}]}'' @ [10] @ js ''data: [DO'',
                   js ''NE]'' @ [10]]\<close>
    by simp
  have c: \<open>concat [js ''data: {"choi'',
                   js ''ces":[{"delta":{"content":"a"}}]}'' @ [10] @ js ''data: [DO'',
                   js ''NE]'' @ [10]]
           = js ''data: {"choices":[{"delta":{"content":"a"}}]}'' @ [10] @ js ''data: [DONE]'' @ [10]\<close>
    by (simp add: js_def)
  from chat_stream_round_trip [OF a b c, of "js ''*''"] show ?thesis
    by simp
qed


lemma generateStreamLine_cases:
  "generateStreamLine l = (if sentinelLine l then None else Some (generateLineOutput l))"
  by (auto simp: generateStreamLine_def generateStreamData_def linePayload_def carriesValue_def
        sentinelLine_def generateLineOutput_def Let_def split: option.splits jsval.splits)

lemma forLines_generate:
  "forLines generateStreamLine ls =
     (concat (map generateLineOutput (takeWhile (\<lambda>l. \<not> sentinelLine l) ls))
        @ (if \<exists>l\<in>set ls. sentinelLine l then [End None] else []),
      \<exists>l\<in>set ls. sentinelLine l)"
proof (induction ls)
  case Nil
  show ?case by simp
next
  case (Cons l ls)
  show ?case
  proof (cases "sentinelLine l")
    case True
    then show ?thesis
      by (simp add: generateStreamLine_cases)
  next
    case False
    with Cons.IH show ?thesis
      by (simp add: generateStreamLine_cases)
  qed
qed

text \<open>
  Claim C6, as the code has it. For every successful backend response that has a body
  stream, however the body is cut into chunks: \<open>processGenerateStream\<close> writes the head and then goes
  through the complete lines of the body up to the first \<open>DONE\<close> sentinel. For a
  \<open>data: \<close> line whose payload (the line without its \<open>data: \<close> prefix, trimmed)
  parses to JSON with a non-empty string \<open>value\<close> it writes that payload; for any other
  \<open>data: \<close> line it writes nothing; a line of another kind goes to
  \<open>processCommonLineTypes\<close>. After a sentinel it ends the response (twice); else it
  flushes what is left after the last newline, unless the body failed, and ends it.
\<close>

theorem generate_stream_forwarding:
  assumes "ok backendRes" and "body backendRes = Some cks"
  shows "processGenerateStream corsOrigin backendRes =
     (WriteHead 200 (streamHeaders corsOrigin)
        # concat (map generateLineOutput
            (takeWhile (\<lambda>l. \<not> sentinelLine l) (butlast (split_on 10 (concat cks)))))
        @ (if \<exists>l\<in>set (butlast (split_on 10 (concat cks))). sentinelLine l
           then [End None, End None]
           else (case bodyError backendRes of
                   None \<Rightarrow> processRemainingBuffer (last (split_on 10 (concat cks)))
                 | Some msg \<Rightarrow> [])
                @ [End None]),
      None)"
proof -
  from assms(1) have "processGenerateStream corsOrigin backendRes
      = processStream generateStreamLine corsOrigin backendRes"
    by (simp add: processGenerateStream_def)
  then show ?thesis
    unfolding processStream_lines [OF assms(2)]
    by (simp add: forLines_generate split: option.splits)
qed

text \<open>The theorem at three lines: a string value, a number value, a line that is no JSON.\<close>

theorem generate_stream_witness:
  \<open>processGenerateStream (js ''*'')
     \<lparr>status = 200, traceId = None,
      body = Some [js ''data: {"value":"x"}'' @ [10] @ js ''data: {"val'',
                   js ''ue":1}'' @ [10] @ js ''data: oops'' @ [10]],
      bodyError = None\<rparr>
   = ([WriteHead 200 (streamHeaders (js ''*'')), Write [Lit (js ''{"value":"x"}'')], End None],
      None)\<close>
proof -
  let ?r = \<open>\<lparr>status = 200, traceId = None,
      body = Some [js ''data: {"value":"x"}'' @ [10] @ js ''data: {"val'',
                   js ''ue":1}'' @ [10] @ js ''data: oops'' @ [10]],
      bodyError = None\<rparr>\<close>
  let ?l1 = \<open>js ''data: {"value":"x"}''\<close>
  let ?l2 = \<open>js ''data: {"value":1}''\<close>
  let ?l3 = \<open>js ''data: oops''\<close>
  have a: "ok ?r"
    by (simp add: ok_def)
  let ?cks = \<open>[js ''data: {"value":"x"}'' @ [10] @ js ''data: {"val'',
                js ''ue":1}'' @ [10] @ js ''data: oops'' @ [10]]\<close>
  have c: "body ?r = Some ?cks"
    by simp
  have b: "split_on 10 (concat ?cks) = [?l1, ?l2, ?l3, []]"
    by (simp add: js_def)
  have p: \<open>linePayload ?l1 = js ''{"value":"x"}''\<close>
    \<open>linePayload ?l2 = js ''{"value":1}''\<close>
    \<open>linePayload ?l3 = js ''oops''\<close>
    by (simp_all add: linePayload_def String_trim_def isWhiteSpace_def js_def)
  have d: "String_startsWith ?l1 (js ''data: '')" "String_startsWith ?l2 (js ''data: '')"
    "String_startsWith ?l3 (js ''data: '')"
    by (simp_all add: String_startsWith_def js_def)
  have e: "carriesValue ?l1" "\<not> carriesValue ?l2" "\<not> carriesValue ?l3"
    unfolding carriesValue_def p by (simp_all add: json_eval optGet_def)
  have f: "\<not> sentinelLine ?l1" "\<not> sentinelLine ?l2" "\<not> sentinelLine ?l3"
    unfolding sentinelLine_def p by (simp_all add: isDone_def js_def)
  have g: \<open>generateLineOutput ?l1 = [Write [Lit (js ''{"value":"x"}'')]]\<close>
    "generateLineOutput ?l2 = []" "generateLineOutput ?l3 = []"
    unfolding generateLineOutput_def using d e p by simp_all
  have h: "processRemainingBuffer [] = []"
    by (simp add: processRemainingBuffer_def String_trim_def String_startsWith_def js_def)
  show ?thesis
    using generate_stream_forwarding [OF a c, of "js ''*''"]
    unfolding b by (simp add: f g h)
qed

text \<open>
  The claim as stated fails: what is written for the line \<open>data: {"value":"x"}\<close> is
  \<open>{"value":"x"}\<close>, not the line; and the line \<open>data: {"value":""}\<close>, whose
  \<open>value\<close> is a string, is not forwarded.
\<close>

theorem generate_stream_counterexample:
  \<open>processGenerateStream (js ''*'')
     \<lparr>status = 200, traceId = None,
      body = Some [js ''data: {"value":"x"}'' @ [10] @ js ''data: {"value":""}'' @ [10]],
      bodyError = None\<rparr>
   = ([WriteHead 200 (streamHeaders (js ''*'')), Write [Lit (js ''{"value":"x"}'')], End None],
      None)
   \<and> js ''{"value":"x"}'' \<noteq> js ''data: {"value":"x"}''
   \<and> JSON_parse (js ''{"value":""}'') = Some (Obj [(js ''value'', Str [])])\<close>
  by (simp add: json_eval processor_eval)

section \<open>Properties of the gateway\<close>

lemma route_names:
  "CHAT_CA_RAG \<noteq> CHAT_STREAM" "CHAT_CA_RAG \<noteq> CHAT" "CHAT_CA_RAG \<noteq> GENERATE_STREAM"
  "CHAT_CA_RAG \<noteq> GENERATE" "CHAT_CA_RAG \<noteq> []"
  by (simp_all add: CHAT_CA_RAG_def CHAT_STREAM_def CHAT_def GENERATE_STREAM_def GENERATE_def
        js_def)

lemma handle_call:
  assumes "isCallRequest cfg v req"
  shows "handleRequest cfg v w S req =
     (fst (doCaRagWithInit cfg w S req (callUrl cfg req)),
      Validated (requestPath req) True # snd (doCaRagWithInit cfg w S req (callUrl cfg req)))"
proof -
  from assms have p: "requestPath req = HTTP_PROXY_PATH cfg @ CHAT_CA_RAG"
    and m: "reqMethod req \<noteq> js ''OPTIONS''" and i: "isValid (v (requestPath req))"
    unfolding isCallRequest_def by blast+
  have s: "String_startsWith (requestPath req) (HTTP_PROXY_PATH cfg @ js ''/'')"
    by (simp add: p String_startsWith_def CHAT_CA_RAG_def js_def)
  have d: "drop (length (HTTP_PROXY_PATH cfg)) (requestPath req) = CHAT_CA_RAG"
    by (simp add: p)
  show ?thesis
    unfolding handleRequest_def
    using m i s d route_names
    by (simp add: callUrl_def routeRequest_def Let_def split: prod.splits)
qed

lemma forward_fetches_target:
  "e \<in> set (doFetchAndProcess cfg w req u p) \<Longrightarrow> isInitFetch cfg e \<Longrightarrow> u = initUrl cfg"
  by (auto simp: doFetchAndProcess_def failWith_def
           split: option.splits fetch_result.splits prod.splits if_splits)

lemma callUrl_not_initUrl: "callUrl cfg req \<noteq> initUrl cfg"
  by (simp add: callUrl_def initUrl_def CHAT_CA_RAG_def CA_RAG_INIT_def js_def)

lemma forward_no_init:
  "filter (isInitFetch cfg) (doFetchAndProcess cfg w req (callUrl cfg req) p) = []"
  using forward_fetches_target [of _ cfg w req "callUrl cfg req" p] callUrl_not_initUrl [of cfg req]
  by (auto simp: filter_empty_conv)

lemma initialized_skips:
  "initKey cfg req \<in> S \<Longrightarrow>
   doCaRagWithInit cfg w S req u = (S, doFetchAndProcess cfg w req u processCaRag)"
  by (simp add: doCaRagWithInit_def)


lemma init_outcome:
  assumes "initKey cfg req \<notin> S"
  shows "fst (doCaRagWithInit cfg w S req u)
           = (if initSucceeds cfg w then insert (initKey cfg req) S else S)"
  using assms
  by (auto simp: doCaRagWithInit_def initSucceeds_def split: fetch_result.splits sum.splits)


lemma forward_events:
  "e \<in> set (doFetchAndProcess cfg w req u p) \<Longrightarrow> (\<exists>m b. e = Fetch u m b) \<or> (\<exists>c. e = Res c)"
  by (auto simp: doFetchAndProcess_def failWith_def
           split: option.splits fetch_result.splits prod.splits if_splits)

lemma carag_events:
  "e \<in> set (snd (doCaRagWithInit cfg w S req u)) \<Longrightarrow>
     (\<exists>u m b. e = Fetch u m b) \<or> (\<exists>c. e = Res c)"
  by (auto simp: doCaRagWithInit_def failWith_def initCall_def
           split: fetch_result.splits sum.splits if_splits dest: forward_events)

lemma handleRequest_outside:
  "\<not> String_startsWith (requestPath req) (HTTP_PROXY_PATH cfg @ js ''/'') \<Longrightarrow>
   handleRequest cfg v w S req = (S, [NextProxyWeb])"
  by (simp add: handleRequest_def)

lemma handleRequest_preflight:
  "String_startsWith (requestPath req) (HTTP_PROXY_PATH cfg @ js ''/'') \<Longrightarrow>
   reqMethod req = js ''OPTIONS'' \<Longrightarrow>
   handleRequest cfg v w S req = (S, preflight cfg)"
  by (simp add: handleRequest_def)

lemma handleRequest_rejected:
  "String_startsWith (requestPath req) (HTTP_PROXY_PATH cfg @ js ''/'') \<Longrightarrow>
   reqMethod req \<noteq> js ''OPTIONS'' \<Longrightarrow> \<not> isValid (v (requestPath req)) \<Longrightarrow>
   handleRequest cfg v w S req
     = (S, Validated (requestPath req) False # forbidden (v (requestPath req)))"
  by (simp add: handleRequest_def)

lemma routeRequest_events:
  "e \<in> set (snd (routeRequest cfg w S req bp u)) \<Longrightarrow> \<forall>p b. e \<noteq> Validated p b"
  unfolding routeRequest_def
  by (auto split: if_splits dest: forward_events carag_events)

lemma handleRequest_accepted:
  assumes "String_startsWith (requestPath req) (HTTP_PROXY_PATH cfg @ js ''/'')"
    and "reqMethod req \<noteq> js ''OPTIONS''" and "isValid (v (requestPath req))"
  shows "\<exists>done. snd (handleRequest cfg v w S req) = Validated (requestPath req) True # done
           \<and> (\<forall>e\<in>set done. \<forall>p b. e \<noteq> Validated p b)"
  using assms routeRequest_events [of _ cfg w S req]
  by (simp add: handleRequest_def Let_def split: prod.splits) (metis snd_conv)

lemma preflight_events: "e \<in> set (preflight cfg) \<Longrightarrow> \<exists>c. e = Res c"
  by (auto simp: preflight_def)

lemma forbidden_events: "e \<in> set (forbidden pv) \<Longrightarrow> \<exists>c. e = Res c"
  by (auto simp: forbidden_def)

lemma rejected_only_when_invalid:
  assumes "Validated p False \<in> set (snd (handleRequest cfg v w S req))"
  shows "String_startsWith (requestPath req) (HTTP_PROXY_PATH cfg @ js ''/'')
       \<and> reqMethod req \<noteq> js ''OPTIONS'' \<and> \<not> isValid (v (requestPath req))"
proof -
  have 1: "String_startsWith (requestPath req) (HTTP_PROXY_PATH cfg @ js ''/'')"
  proof (rule ccontr)
    assume "\<not> String_startsWith (requestPath req) (HTTP_PROXY_PATH cfg @ js ''/'')"
    then have "handleRequest cfg v w S req = (S, [NextProxyWeb])"
      by (rule handleRequest_outside)
    with assms show False by simp
  qed
  have 2: "reqMethod req \<noteq> js ''OPTIONS''"
  proof
    assume "reqMethod req = js ''OPTIONS''"
    with 1 have "handleRequest cfg v w S req = (S, preflight cfg)"
      by (rule handleRequest_preflight)
    with assms preflight_events [of "Validated p False" cfg] show False by auto
  qed
  have 3: "\<not> isValid (v (requestPath req))"
  proof
    assume "isValid (v (requestPath req))"
    with 1 2 have "\<exists>done. snd (handleRequest cfg v w S req) = Validated (requestPath req) True # done
           \<and> (\<forall>e\<in>set done. \<forall>p b. e \<noteq> Validated p b)"
      by (rule handleRequest_accepted)
    then obtain evs where d: "snd (handleRequest cfg v w S req) = Validated (requestPath req) True # evs"
      and n: "\<forall>e\<in>set evs. \<forall>p b. e \<noteq> Validated p b"
      by blast
    from assms d have "Validated p False \<in> set evs"
      by simp
    with n show False
      by blast
  qed
  from 1 2 3 show ?thesis by blast
qed


lemma handleUpgrade_events:
  "Validated q False \<in> set (handleUpgrade cfg vw w req) \<Longrightarrow>
   (requestPath req = WEBSOCKET_PROXY_PATH cfg
      \<or> String_startsWith (requestPath req) (WEBSOCKET_PROXY_PATH cfg @ js ''?''))
   \<and> \<not> isValid (vw (requestPath req))"
  by (auto simp: handleUpgrade_def split: if_splits option.splits)

lemma forbidden_no_forward: "e \<in> set (forbidden pv) \<Longrightarrow> \<not> forwards e"
  by (auto simp: forbidden_def)

lemma preflight_no_forward: "e \<in> set (preflight cfg) \<Longrightarrow> \<not> forwards e"
  by (auto simp: preflight_def)

text \<open>
  Claim C2. For a request under the API-proxy prefix whose path the validator rejects,
  all the handler does is call the validator and answer 403 with the validator's error,
  which is what the client receives; the same for an upgrade on the WebSocket-proxy
  path, where the handler writes a raw \<open>HTTP/1.1 403\<close> to the socket and destroys it.
  Whenever a handler calls the validator and it says invalid, that is all the handler
  does. For such a request nothing is handed to an upstream (a preflight \<open>OPTIONS\<close>
  request is answered 204 before the validator is called, and forwards nothing
  either); and whenever such a request is handed to an upstream, the validator was
  called first and accepted the path.
\<close>

theorem ssrf_validation_gate:
  "(String_startsWith (requestPath req) (HTTP_PROXY_PATH cfg @ js ''/'')
        \<and> reqMethod req \<noteq> js ''OPTIONS'' \<and> \<not> isValid (v (requestPath req)) \<longrightarrow>
      handleRequest cfg v w S req =
        (S, [Validated (requestPath req) False,
             Res (WriteHead 403 jsonHeaders),
             Res (End (Some [Stringify (Obj [(js ''error'', Str (js ''Forbidden'')),
                                             (js ''message'', error (v (requestPath req)))])]))])
      \<and> clientView
            [WriteHead 403 jsonHeaders,
             End (Some [Stringify (Obj [(js ''error'', Str (js ''Forbidden'')),
                                        (js ''message'', error (v (requestPath req)))])])]
          = \<lparr>clientStatus = Some 403,
             clientBody = [Stringify (Obj [(js ''error'', Str (js ''Forbidden'')),
                                           (js ''message'', error (v (requestPath req)))])],
             terminations = 1\<rparr>)
   \<and> (Validated p False \<in> set (snd (handleRequest cfg v w S req)) \<longrightarrow>
      handleRequest cfg v w S req =
        (S, [Validated (requestPath req) False,
             Res (WriteHead 403 jsonHeaders),
             Res (End (Some [Stringify (Obj [(js ''error'', Str (js ''Forbidden'')),
                                             (js ''message'', error (v (requestPath req)))])]))]))
   \<and> (String_startsWith (requestPath req) (HTTP_PROXY_PATH cfg @ js ''/'')
        \<and> \<not> isValid (v (requestPath req)) \<longrightarrow>
        (\<forall>e\<in>set (snd (handleRequest cfg v w S req)). \<not> forwards e))
   \<and> (String_startsWith (requestPath req) (HTTP_PROXY_PATH cfg @ js ''/'')
        \<and> e \<in> set (snd (handleRequest cfg v w S req)) \<and> forwards e \<longrightarrow>
        isValid (v (requestPath req))
        \<and> hd (snd (handleRequest cfg v w S req)) = Validated (requestPath req) True)
   \<and> (Validated q False \<in> set (handleUpgrade cfg vw w req) \<longrightarrow>
        handleUpgrade cfg vw w req =
          [Validated (requestPath req) False,
           SocketWrite (js ''HTTP/1.1 403 Forbidden'' @ [13, 10, 13, 10]),
           SocketDestroy])
   \<and> ((requestPath req = WEBSOCKET_PROXY_PATH cfg
         \<or> String_startsWith (requestPath req) (WEBSOCKET_PROXY_PATH cfg @ js ''?''))
        \<and> \<not> isValid (vw (requestPath req)) \<longrightarrow>
        handleUpgrade cfg vw w req =
          [Validated (requestPath req) False,
           SocketWrite (js ''HTTP/1.1 403 Forbidden'' @ [13, 10, 13, 10]),
           SocketDestroy])
   \<and> ((requestPath req = WEBSOCKET_PROXY_PATH cfg
         \<or> String_startsWith (requestPath req) (WEBSOCKET_PROXY_PATH cfg @ js ''?''))
        \<and> e' \<in> set (handleUpgrade cfg vw w req) \<and> forwards e' \<longrightarrow>
        isValid (vw (requestPath req))
        \<and> hd (handleUpgrade cfg vw w req) = Validated (requestPath req) True)"
proof (intro conjI impI)
  assume "String_startsWith (requestPath req) (HTTP_PROXY_PATH cfg @ js ''/'')
        \<and> reqMethod req \<noteq> js ''OPTIONS'' \<and> \<not> isValid (v (requestPath req))"
  then show "handleRequest cfg v w S req =
        (S, [Validated (requestPath req) False,
             Res (WriteHead 403 jsonHeaders),
             Res (End (Some [Stringify (Obj [(js ''error'', Str (js ''Forbidden'')),
                                             (js ''message'', error (v (requestPath req)))])]))])"
    by (simp add: handleRequest_rejected forbidden_def)
next
  show "clientView
            [WriteHead 403 jsonHeaders,
             End (Some [Stringify (Obj [(js ''error'', Str (js ''Forbidden'')),
                                        (js ''message'', error (v (requestPath req)))])])]
          = \<lparr>clientStatus = Some 403,
             clientBody = [Stringify (Obj [(js ''error'', Str (js ''Forbidden'')),
                                           (js ''message'', error (v (requestPath req)))])],
             terminations = 1\<rparr>"
    by (simp add: clientView_def sendHead_def)
next
  assume "Validated p False \<in> set (snd (handleRequest cfg v w S req))"
  then have "String_startsWith (requestPath req) (HTTP_PROXY_PATH cfg @ js ''/'')
       \<and> reqMethod req \<noteq> js ''OPTIONS'' \<and> \<not> isValid (v (requestPath req))"
    by (rule rejected_only_when_invalid)
  then show "handleRequest cfg v w S req =
        (S, [Validated (requestPath req) False,
             Res (WriteHead 403 jsonHeaders),
             Res (End (Some [Stringify (Obj [(js ''error'', Str (js ''Forbidden'')),
                                             (js ''message'', error (v (requestPath req)))])]))])"
    by (simp add: handleRequest_rejected forbidden_def)
next
  assume a: "String_startsWith (requestPath req) (HTTP_PROXY_PATH cfg @ js ''/'')
        \<and> \<not> isValid (v (requestPath req))"
  show "\<forall>e\<in>set (snd (handleRequest cfg v w S req)). \<not> forwards e"
  proof (cases "reqMethod req = js ''OPTIONS''")
    case True
    with a show ?thesis
      by (auto simp: handleRequest_preflight dest: preflight_no_forward)
  next
    case False
    with a show ?thesis
      by (auto simp: handleRequest_rejected dest: forbidden_no_forward)
  qed
next
  assume a: "String_startsWith (requestPath req) (HTTP_PROXY_PATH cfg @ js ''/'')
        \<and> e \<in> set (snd (handleRequest cfg v w S req)) \<and> forwards e"
  from a have s: "String_startsWith (requestPath req) (HTTP_PROXY_PATH cfg @ js ''/'')"
    and e: "e \<in> set (snd (handleRequest cfg v w S req))" and f: "forwards e"
    by blast+
  have m: "reqMethod req \<noteq> js ''OPTIONS''"
  proof
    assume "reqMethod req = js ''OPTIONS''"
    with s have "handleRequest cfg v w S req = (S, preflight cfg)"
      by (rule handleRequest_preflight)
    with e have "e \<in> set (preflight cfg)"
      by simp
    with f show False
      by (auto dest: preflight_no_forward)
  qed
  show i: "isValid (v (requestPath req))"
  proof (rule ccontr)
    assume "\<not> isValid (v (requestPath req))"
    with s m have "handleRequest cfg v w S req
       = (S, Validated (requestPath req) False # forbidden (v (requestPath req)))"
      by (rule handleRequest_rejected)
    with e have "e = Validated (requestPath req) False \<or> e \<in> set (forbidden (v (requestPath req)))"
      by simp
    with f show False
      by (auto dest: forbidden_no_forward)
  qed
  from s m i have "\<exists>evs. snd (handleRequest cfg v w S req) = Validated (requestPath req) True # evs
           \<and> (\<forall>e\<in>set evs. \<forall>p b. e \<noteq> Validated p b)"
    by (rule handleRequest_accepted)
  then show "hd (snd (handleRequest cfg v w S req)) = Validated (requestPath req) True"
    by auto
next
  assume "Validated q False \<in> set (handleUpgrade cfg vw w req)"
  from handleUpgrade_events [OF this]
  show "handleUpgrade cfg vw w req =
          [Validated (requestPath req) False,
           SocketWrite (js ''HTTP/1.1 403 Forbidden'' @ [13, 10, 13, 10]),
           SocketDestroy]"
    by (auto simp: handleUpgrade_def)
next
  assume "(requestPath req = WEBSOCKET_PROXY_PATH cfg
         \<or> String_startsWith (requestPath req) (WEBSOCKET_PROXY_PATH cfg @ js ''?''))
        \<and> \<not> isValid (vw (requestPath req))"
  then show "handleUpgrade cfg vw w req =
          [Validated (requestPath req) False,
           SocketWrite (js ''HTTP/1.1 403 Forbidden'' @ [13, 10, 13, 10]),
           SocketDestroy]"
    by (auto simp: handleUpgrade_def)
next
  assume a: "(requestPath req = WEBSOCKET_PROXY_PATH cfg
         \<or> String_startsWith (requestPath req) (WEBSOCKET_PROXY_PATH cfg @ js ''?''))
        \<and> e' \<in> set (handleUpgrade cfg vw w req) \<and> forwards e'"
  then show i: "isValid (vw (requestPath req))"
    by (auto simp: handleUpgrade_def split: if_splits)
  with a show "hd (handleUpgrade cfg vw w req) = Validated (requestPath req) True"
    by (auto simp: handleUpgrade_def)
qed

text \<open>The theorem at a \<open>POST\<close> under \<open>/api\<close> and an upgrade on \<open>/ws\<close>, with a validator that rejects.\<close>

theorem ssrf_validation_gate_witness:
  "(let cfg = \<lparr>HTTP_PROXY_PATH = js ''/api'', WEBSOCKET_PROXY_PATH = js ''/ws'',
               CORS_ORIGIN = js ''*'', RAG_UUID = js ''123456'',
               UPSTREAM_HTTP_ORIGIN = js ''http://backend:8000''\<rparr>;
        deny = (\<lambda>p. \<lparr>isValid = False, error = Str (js ''Path not allowed'')\<rparr>);
        w = \<lparr>fetch = (\<lambda>u m. Rejected (js ''unreachable'')), wsProxyError = None\<rparr>;
        post = \<lparr>reqMethod = js ''POST'', pathname = Some (js ''/api/admin''), search = None,
                 conversationId = None, bodyFailure = None\<rparr>;
        upgrade = \<lparr>reqMethod = js ''GET'', pathname = Some (js ''/ws''), search = None,
                    conversationId = None, bodyFailure = None\<rparr>
    in handleRequest cfg deny w {} post =
         ({}, [Validated (js ''/api/admin'') False,
               Res (WriteHead 403 jsonHeaders),
               Res (End (Some [Stringify (Obj [(js ''error'', Str (js ''Forbidden'')),
                                               (js ''message'', Str (js ''Path not allowed''))])]))])
       \<and> handleUpgrade cfg deny w upgrade =
           [Validated (js ''/ws'') False,
            SocketWrite (js ''HTTP/1.1 403 Forbidden'' @ [13, 10, 13, 10]),
            SocketDestroy])"
proof -
  let ?cfg = "\<lparr>HTTP_PROXY_PATH = js ''/api'', WEBSOCKET_PROXY_PATH = js ''/ws'',
               CORS_ORIGIN = js ''*'', RAG_UUID = js ''123456'',
               UPSTREAM_HTTP_ORIGIN = js ''http://backend:8000''\<rparr>"
  let ?deny = "\<lambda>p::jsstring. \<lparr>isValid = False, error = Str (js ''Path not allowed'')\<rparr>"
  let ?w = "\<lparr>fetch = (\<lambda>u m. Rejected (js ''unreachable'')), wsProxyError = None\<rparr>"
  let ?post = "\<lparr>reqMethod = js ''POST'', pathname = Some (js ''/api/admin''), search = None,
                 conversationId = None, bodyFailure = None\<rparr>"
  let ?upgrade = "\<lparr>reqMethod = js ''GET'', pathname = Some (js ''/ws''), search = None,
                    conversationId = None, bodyFailure = None\<rparr>"
  have p: "requestPath ?post = js ''/api/admin''" "requestPath ?upgrade = js ''/ws''"
    by (simp_all add: requestPath_def js_def)
  have a: "String_startsWith (requestPath ?post) (HTTP_PROXY_PATH ?cfg @ js ''/'')
      \<and> reqMethod ?post \<noteq> js ''OPTIONS'' \<and> \<not> isValid (?deny (requestPath ?post))"
    unfolding p by (simp add: String_startsWith_def js_def)
  have b: "(requestPath ?upgrade = WEBSOCKET_PROXY_PATH ?cfg
       \<or> String_startsWith (requestPath ?upgrade) (WEBSOCKET_PROXY_PATH ?cfg @ js ''?''))
      \<and> \<not> isValid (?deny (requestPath ?upgrade))"
    unfolding p by simp
  note g1 = ssrf_validation_gate [where req = ?post and cfg = ?cfg and v = ?deny and w = ?w
      and S = "{}", THEN conjunct1, THEN mp, OF a, THEN conjunct1]
  note g2 = ssrf_validation_gate [where req = ?upgrade and cfg = ?cfg and vw = ?deny and w = ?w,
      THEN conjunct2, THEN conjunct2, THEN conjunct2, THEN conjunct2, THEN conjunct2,
      THEN conjunct1, THEN mp, OF b]
  have 1: "handleRequest ?cfg ?deny ?w {} ?post =
         ({}, [Validated (js ''/api/admin'') False,
               Res (WriteHead 403 jsonHeaders),
               Res (End (Some [Stringify (Obj [(js ''error'', Str (js ''Forbidden'')),
                                               (js ''message'', Str (js ''Path not allowed''))])]))])"
    unfolding g1 p by simp
  have 2: "handleUpgrade ?cfg ?deny ?w ?upgrade =
           [Validated (js ''/ws'') False,
            SocketWrite (js ''HTTP/1.1 403 Forbidden'' @ [13, 10, 13, 10]),
            SocketDestroy]"
    unfolding g2 p by simp
  from 1 2 show ?thesis
    unfolding Let_def by (rule conjI)
qed





lemma handle_initialized:
  assumes "isCallRequest cfg v r" and "initKey cfg r \<in> S"
  shows "handleRequest cfg v w S r =
     (S, Validated (requestPath r) True # doFetchAndProcess cfg w r (callUrl cfg r) processCaRag)"
  by (simp add: handle_call [OF assms(1)] initialized_skips [OF assms(2)])

lemma handle_initialized_no_init:
  assumes "isCallRequest cfg v r" and "initKey cfg r \<in> S"
  shows "filter (isInitFetch cfg) (snd (handleRequest cfg v w S r)) = []"
  by (simp add: handle_initialized [OF assms] forward_no_init)

lemma handle_state:
  assumes "isCallRequest cfg v r"
  shows "fst (handleRequest cfg v w S r)
     = (if initKey cfg r \<in> S then S
        else if initSucceeds cfg w then insert (initKey cfg r) S else S)"
  by (simp add: handle_call [OF assms] initialized_skips init_outcome)

subsection \<open>Handlers that overlap\<close>

lemma startsWith_split:
  assumes "String_startsWith s (p @ q)"
  shows "s = p @ drop (length p) s"
proof -
  from assms have t: "take (length (p @ q)) s = p @ q"
    by (simp add: String_startsWith_def)
  have "take (length p) s = take (length p) (take (length (p @ q)) s)"
    by (simp add: min_def)
  also have "\<dots> = p"
    unfolding t by simp
  finally have "take (length p) s = p" .
  then show ?thesis
    by (metis append_take_drop_id)
qed

lemma handleRequest_keeps_set:
  assumes "\<not> isCallRequest cfg v req"
  shows "fst (handleRequest cfg v w S req) = S"
proof (cases "String_startsWith (requestPath req) (HTTP_PROXY_PATH cfg @ js ''/'')
    \<and> reqMethod req \<noteq> js ''OPTIONS'' \<and> isValid (v (requestPath req))")
  case False
  then show ?thesis
    by (auto simp: handleRequest_def)
next
  case True
  then have "requestPath req = HTTP_PROXY_PATH cfg @ drop (length (HTTP_PROXY_PATH cfg)) (requestPath req)"
    using startsWith_split by blast
  with assms True have n: "drop (length (HTTP_PROXY_PATH cfg)) (requestPath req) \<noteq> CHAT_CA_RAG"
    unfolding isCallRequest_def by metis
  have m: "js ''/'' \<noteq> CHAT_CA_RAG"
    by (simp add: CHAT_CA_RAG_def js_def)
  from True n m show ?thesis
    by (simp add: handleRequest_def routeRequest_def Let_def split: prod.splits)
qed

lemma resumeInit_after_start:
  assumes "initKey cfg req \<notin> S"
  shows "doCaRagWithInit cfg w S req (callUrl cfg req)
           = (fst (resumeInit cfg w S req), initCall cfg # snd (resumeInit cfg w S req))"
  using assms
  by (simp add: doCaRagWithInit_def resumeInit_def split: fetch_result.splits sum.splits)

text \<open>
  A handler that no other handler interrupts does what \<open>handleRequest\<close> says: its
  parts, run one after the other on the same set, give the set and the events of
  \<open>handleRequest\<close>.
\<close>

lemma handleRequest_segments:
  "handleRequest cfg v w S req =
     (case startRequest cfg v w S req of
        (AwaitingInit, evs) \<Rightarrow>
          (case resumeInit cfg w S req of (after, evs') \<Rightarrow> (after, evs @ evs'))
      | (st, evs) \<Rightarrow> (S, evs))"
proof (cases "isCallRequest cfg v req")
  case False
  then show ?thesis
    using handleRequest_keeps_set [OF False, of w S]
    by (simp add: startRequest_def prod_eq_iff)
next
  case c: True
  show ?thesis
  proof (cases "initKey cfg req \<in> S")
    case True
    with c show ?thesis
      by (simp add: startRequest_def handle_initialized)
  next
    case False
    with c show ?thesis
      by (simp add: startRequest_def handle_call resumeInit_after_start split: prod.splits)
  qed
qed

lemma start_initialized:
  assumes "isCallRequest cfg v req" and "initKey cfg req \<in> S"
  shows "startRequest cfg v w S req
     = (Finished, Validated (requestPath req) True
                  # doFetchAndProcess cfg w req (callUrl cfg req) processCaRag)"
  using assms by (simp add: startRequest_def handle_initialized)

lemma start_uninitialized:
  assumes "isCallRequest cfg v req" and "initKey cfg req \<notin> S"
  shows "startRequest cfg v w S req = (AwaitingInit, [Validated (requestPath req) True, initCall cfg])"
  using assms by (simp add: startRequest_def)

lemma resumeInit_state:
  "fst (resumeInit cfg w S req) = (if initSucceeds cfg w then insert (initKey cfg req) S else S)"
  by (simp add: resumeInit_def initSucceeds_def split: fetch_result.splits sum.splits)

lemma resumeInit_no_init:
  "e \<in> set (snd (resumeInit cfg w S req)) \<Longrightarrow> \<not> isInitFetch cfg e"
  using forward_fetches_target [of e cfg w req "callUrl cfg req" processCaRag]
    callUrl_not_initUrl [of cfg req]
  by (auto simp: resumeInit_def failWith_def split: fetch_result.splits sum.splits if_splits)


lemma resumeTask_same_request:
  "fst (fst (snd (resumeTask cfg v S (w, r, st)))) = w
   \<and> fst (snd (fst (snd (resumeTask cfg v S (w, r, st))))) = r"
  by (cases st) (simp_all split: prod.splits)

lemma resumeTask_initialized:
  assumes "isCallRequest cfg v r" and "initKey cfg r \<in> S"
  shows "initKey cfg r \<in> fst (resumeTask cfg v S (w, r, st))
       \<and> (\<forall>e\<in>set (snd (snd (resumeTask cfg v S (w, r, st)))). \<not> isInitFetch cfg e)"
proof (cases st)
  case Arrived
  have "x \<in> set (doFetchAndProcess cfg w r (callUrl cfg r) processCaRag) \<Longrightarrow> \<not> isInitFetch cfg x" for x
    using forward_no_init [of cfg w r processCaRag] by (auto simp: filter_empty_conv)
  with Arrived assms show ?thesis
    by (auto simp: start_initialized)
next
  case AwaitingInit
  with assms(2) show ?thesis
    using resumeInit_state [of cfg w S r] resumeInit_no_init [of _ cfg w S r]
    by (auto split: prod.splits)
next
  case Finished
  with assms(2) show ?thesis by simp
qed

lemma tasks_update:
  assumes "\<forall>(w, r, st)\<in>set tasks. isCallRequest cfg v r \<and> initKey cfg r = k"
    and "i < length tasks"
  shows "\<forall>(w, r, st)\<in>set (tasks[i := fst (snd (resumeTask cfg v S (tasks ! i)))]).
           isCallRequest cfg v r \<and> initKey cfg r = k"
proof -
  obtain w r st where t: "tasks ! i = (w, r, st)"
    by (cases "tasks ! i") auto
  with assms have c: "isCallRequest cfg v r \<and> initKey cfg r = k"
    by (metis (mono_tags, lifting) case_prod_conv nth_mem)
  obtain w' r' st' where n: "fst (snd (resumeTask cfg v S (w, r, st))) = (w', r', st')"
    by (cases "fst (snd (resumeTask cfg v S (w, r, st)))") auto
  with resumeTask_same_request [of cfg v S w r st] have "w' = w" "r' = r"
    by simp_all
  with n c assms(1) show ?thesis
    unfolding t by (auto dest!: set_update_subset_insert [THEN subsetD])
qed

lemma runSchedule_initialized:
  assumes "\<forall>(w, r, st)\<in>set tasks. isCallRequest cfg v r \<and> initKey cfg r = k" and "k \<in> S"
  shows "k \<in> fst (runSchedule cfg v schedule S tasks)
       \<and> initCalls cfg (snd (snd (runSchedule cfg v schedule S tasks))) = []"
  using assms
proof (induction schedule arbitrary: S tasks)
  case Nil
  then show ?case by (simp add: initCalls_def)
next
  case (Cons i schedule)
  show ?case
  proof (cases "i < length tasks")
    case False
    with Cons show ?thesis by simp
  next
    case True
    obtain w r st where t: "tasks ! i = (w, r, st)"
      by (cases "tasks ! i") auto
    with Cons.prems(1) True have c: "isCallRequest cfg v r" "initKey cfg r = k"
      by (metis (mono_tags, lifting) case_prod_conv nth_mem)+
    obtain S' t' evs where s: "resumeTask cfg v S (tasks ! i) = (S', t', evs)"
      by (cases "resumeTask cfg v S (tasks ! i)") auto
    from resumeTask_initialized [OF c(1), of S w st] c(2) Cons.prems(2) s t
    have k: "k \<in> S'" and n: "\<forall>e\<in>set evs. \<not> isInitFetch cfg e"
      by auto
    from tasks_update [OF Cons.prems(1) True, of S] s
    have u: "\<forall>(w, r, st)\<in>set (tasks[i := t']). isCallRequest cfg v r \<and> initKey cfg r = k"
      by simp
    from n have e: "initCalls cfg (map (Pair i) evs) = []"
      by (auto simp: initCalls_def filter_empty_conv)
    from Cons.IH [OF u k] True s e show ?thesis
      by (auto simp: initCalls_def split: prod.splits)
  qed
qed

lemma runSchedule_append:
  "runSchedule cfg v (before @ later) S tasks =
     (case runSchedule cfg v before S tasks of
        (S1, tasks1, trace1) \<Rightarrow>
          (case runSchedule cfg v later S1 tasks1 of
             (S2, tasks2, trace2) \<Rightarrow> (S2, tasks2, trace1 @ trace2)))"
  by (induction before arbitrary: S tasks) (auto split: prod.splits)

lemma runSchedule_tasks:
  assumes "\<forall>(w, r, st)\<in>set tasks. isCallRequest cfg v r \<and> initKey cfg r = k"
  shows "\<forall>(w, r, st)\<in>set (fst (snd (runSchedule cfg v schedule S tasks))).
           isCallRequest cfg v r \<and> initKey cfg r = k"
  using assms
proof (induction schedule arbitrary: S tasks)
  case Nil
  then show ?case by simp
next
  case (Cons i schedule)
  show ?case
  proof (cases "i < length tasks")
    case False
    with Cons show ?thesis by simp
  next
    case True
    obtain S' t' evs where s: "resumeTask cfg v S (tasks ! i) = (S', t', evs)"
      by (cases "resumeTask cfg v S (tasks ! i)") auto
    from tasks_update [OF Cons.prems(1) True, of S] s
    have u: "\<forall>(w, r, st)\<in>set (tasks[i := t']). isCallRequest cfg v r \<and> initKey cfg r = k"
      by simp
    from Cons.IH [OF u, of S'] True s show ?thesis
      by (simp split: prod.splits)
  qed
qed


lemma resumeTask_stage:
  "snd (snd (fst (snd (resumeTask cfg v S (w, r, st))))) = Arrived \<Longrightarrow> False"
  by (cases st) (auto simp: startRequest_def split: prod.splits if_splits)

lemma started_no_init:
  assumes "i < length tasks \<longrightarrow> snd (snd (tasks ! i)) \<noteq> Arrived"
  shows "initCallsOf cfg i (snd (snd (runSchedule cfg v schedule S tasks))) = []"
  using assms
proof (induction schedule arbitrary: S tasks)
  case Nil
  then show ?case by (simp add: initCallsOf_def)
next
  case (Cons j schedule)
  show ?case
  proof (cases "j < length tasks")
    case False
    with Cons show ?thesis by simp
  next
    case True
    obtain w r st where t: "tasks ! j = (w, r, st)"
      by (cases "tasks ! j") auto
    obtain S' t' evs where s: "resumeTask cfg v S (tasks ! j) = (S', t', evs)"
      by (cases "resumeTask cfg v S (tasks ! j)") auto
    have n: "snd (snd t') \<noteq> Arrived"
      using resumeTask_stage [of cfg v S w r st] s t by auto
    have u: "i < length (tasks[j := t']) \<longrightarrow> snd (snd (tasks[j := t'] ! i)) \<noteq> Arrived"
      using Cons.prems n by (cases "i = j") auto
    have e: "initCallsOf cfg i (map (Pair j) evs) = []"
    proof (cases "i = j")
      case False
      then show ?thesis
        by (auto simp: initCallsOf_def filter_empty_conv)
    next
      case i: True
      with Cons.prems True t have "st \<noteq> Arrived"
        by simp
      with s t have "\<forall>e\<in>set evs. \<not> isInitFetch cfg e"
        using resumeInit_no_init [of _ cfg w S r]
        by (cases st) (auto split: prod.splits)
      then show ?thesis
        by (auto simp: initCallsOf_def filter_empty_conv)
    qed
    from Cons.IH [OF u, of S'] True s e show ?thesis
      by (auto simp: initCallsOf_def split: prod.splits)
  qed
qed

lemma init_once_per_request:
  assumes "\<forall>(w, r, st)\<in>set tasks. isCallRequest cfg v r \<and> initKey cfg r = k"
  shows "length (initCallsOf cfg i (snd (snd (runSchedule cfg v schedule S tasks)))) \<le> 1"
  using assms
proof (induction schedule arbitrary: S tasks)
  case Nil
  then show ?case by (simp add: initCallsOf_def)
next
  case (Cons j schedule)
  show ?case
  proof (cases "j < length tasks")
    case False
    with Cons show ?thesis by simp
  next
    case True
    obtain w r st where t: "tasks ! j = (w, r, st)"
      by (cases "tasks ! j") auto
    with Cons.prems True have c: "isCallRequest cfg v r" "initKey cfg r = k"
      by (metis (mono_tags, lifting) case_prod_conv nth_mem)+
    obtain S' t' evs where s: "resumeTask cfg v S (tasks ! j) = (S', t', evs)"
      by (cases "resumeTask cfg v S (tasks ! j)") auto
    from tasks_update [OF Cons.prems True, of S] s
    have u: "\<forall>(w, r, st)\<in>set (tasks[j := t']). isCallRequest cfg v r \<and> initKey cfg r = k"
      by simp
    have tr: "snd (snd (runSchedule cfg v (j # schedule) S tasks))
        = map (Pair j) evs @ snd (snd (runSchedule cfg v schedule S' (tasks[j := t'])))"
      using True s by (simp split: prod.splits)
    show ?thesis
    proof (cases "i = j")
      case False
      then have "initCallsOf cfg i (map (Pair j) evs) = []"
        by (auto simp: initCallsOf_def filter_empty_conv)
      with Cons.IH [OF u, of S'] show ?thesis
        unfolding tr by (simp add: initCallsOf_def)
    next
      case i: True
      have n: "snd (snd t') \<noteq> Arrived"
        using resumeTask_stage [of cfg v S w r st] s t by auto
      with True i have "i < length (tasks[j := t']) \<longrightarrow> snd (snd (tasks[j := t'] ! i)) \<noteq> Arrived"
        by simp
      then have z: "initCallsOf cfg i (snd (snd (runSchedule cfg v schedule S' (tasks[j := t'])))) = []"
        by (rule started_no_init)
      have "length (filter (isInitFetch cfg) evs) \<le> 1"
      proof (cases st)
        case Arrived
        show ?thesis
        proof (cases "k \<in> S")
          case True
          with Arrived s t c have "evs = snd (handleRequest cfg v w S r)"
            by (auto simp: startRequest_def)
          with c True show ?thesis
            by (simp add: handle_initialized_no_init)
        next
          case False
          with Arrived s t c have "evs = [Validated (requestPath r) True, initCall cfg]"
            by (auto simp: start_uninitialized)
          then show ?thesis
            by simp
        qed
      next
        case AwaitingInit
        with s t have "\<forall>e\<in>set evs. \<not> isInitFetch cfg e"
          using resumeInit_no_init [of _ cfg w S r] by (auto split: prod.splits)
        then have "filter (isInitFetch cfg) evs = []"
          by (auto simp: filter_empty_conv)
        then show ?thesis by simp
      next
        case Finished
        with s t show ?thesis by auto
      qed
      moreover have "initCallsOf cfg i (map (Pair j) evs) = map (Pair j) (filter (isInitFetch cfg) evs)"
        using i by (induction evs) (auto simp: initCallsOf_def)
      ultimately show ?thesis
        unfolding tr using z by (simp add: initCallsOf_def)
    qed
  qed
qed


lemma initCalls_tagged:
  "initCalls cfg (map (Pair i) evs @ trace)
     = map (Pair i) (filter (isInitFetch cfg) evs) @ initCalls cfg trace"
  by (induction evs) (simp_all add: initCalls_def)

text \<open>
  Two requests of one conversation, at three schedules: the second starts while the
  init call of the first is awaited; the second starts after the init call of the first
  has failed; the first is handled to its end.
\<close>

lemma resume_init_summary:
  "\<exists>evs. resumeTask cfg v S (w, r, AwaitingInit)
            = (if initSucceeds cfg w then insert (initKey cfg r) S else S, (w, r, Finished), evs)
         \<and> filter (isInitFetch cfg) evs = []"
proof -
  obtain S' evs where e: "resumeInit cfg w S r = (S', evs)"
    by (cases "resumeInit cfg w S r") auto
  with resumeInit_state [of cfg w S r]
  have "S' = (if initSucceeds cfg w then insert (initKey cfg r) S else S)"
    by simp
  moreover from e resumeInit_no_init [of _ cfg w S r] have "filter (isInitFetch cfg) evs = []"
    by (auto simp: filter_empty_conv)
  ultimately show ?thesis
    using e by simp
qed

lemma two_overlapping:
  assumes "isCallRequest cfg v r" and "initKey cfg r \<notin> S" and "initSucceeds cfg w"
  shows "initCalls cfg (snd (snd (runSchedule cfg v [0, 1, 0, 1] S [(w, r, Arrived), (w, r, Arrived)])))
           = [(0, initCall cfg), (1, initCall cfg)]"
proof -
  let ?k = "initKey cfg r"
  have s: "resumeTask cfg v S (w, r, Arrived)
      = (S, (w, r, AwaitingInit), [Validated (requestPath r) True, initCall cfg])"
    by (simp add: start_uninitialized [OF assms(1,2)])
  from resume_init_summary [of cfg v S w r] assms(3)
  obtain e1 where 1: "resumeTask cfg v S (w, r, AwaitingInit) = (insert ?k S, (w, r, Finished), e1)"
    and n1: "filter (isInitFetch cfg) e1 = []"
    by auto
  from resume_init_summary [of cfg v "insert ?k S" w r] assms(3)
  obtain e2 where 2: "resumeTask cfg v (insert ?k S) (w, r, AwaitingInit)
      = (insert ?k S, (w, r, Finished), e2)"
    and n2: "filter (isInitFetch cfg) e2 = []"
    by auto
  have i: "isInitFetch cfg (initCall cfg)"
    by (simp add: initCall_def)
  have e: "runSchedule cfg v [0, 1, 0, 1] S [(w, r, Arrived), (w, r, Arrived)]
      = (insert ?k S, [(w, r, Finished), (w, r, Finished)],
         map (Pair 0) [Validated (requestPath r) True, initCall cfg]
         @ map (Pair 1) [Validated (requestPath r) True, initCall cfg]
         @ map (Pair 0) e1 @ map (Pair 1) e2 @ [])"
    by (simp add: s 1 2 del: resumeTask.simps)
  show ?thesis
    unfolding e snd_conv initCalls_tagged n1 n2 using i by (simp add: initCalls_def)
qed


lemma two_after_failure:
  assumes "isCallRequest cfg v r" and "initKey cfg r \<notin> S" and "\<not> initSucceeds cfg w"
  shows "initCalls cfg (snd (snd (runSchedule cfg v [0, 0, 1, 1] S [(w, r, Arrived), (w, r, Arrived)])))
           = [(0, initCall cfg), (1, initCall cfg)]"
proof -
  have s: "resumeTask cfg v S (w, r, Arrived)
      = (S, (w, r, AwaitingInit), [Validated (requestPath r) True, initCall cfg])"
    by (simp add: start_uninitialized [OF assms(1,2)])
  from resume_init_summary [of cfg v S w r] assms(3)
  obtain e1 where 1: "resumeTask cfg v S (w, r, AwaitingInit) = (S, (w, r, Finished), e1)"
    and n1: "filter (isInitFetch cfg) e1 = []"
    by auto
  have i: "isInitFetch cfg (initCall cfg)"
    by (simp add: initCall_def)
  have e: "runSchedule cfg v [0, 0, 1, 1] S [(w, r, Arrived), (w, r, Arrived)]
      = (S, [(w, r, Finished), (w, r, Finished)],
         map (Pair 0) [Validated (requestPath r) True, initCall cfg] @ map (Pair 0) e1
         @ map (Pair 1) [Validated (requestPath r) True, initCall cfg] @ map (Pair 1) e1 @ [])"
    by (simp add: s 1 del: resumeTask.simps)
  show ?thesis
    unfolding e snd_conv initCalls_tagged n1 using i by (simp add: initCalls_def)
qed

lemma first_alone:
  assumes "isCallRequest cfg v r" and "initKey cfg r \<notin> S" and "initSucceeds cfg w"
  shows "initKey cfg r \<in> fst (runSchedule cfg v [0, 0] S [(w, r, Arrived), (w, r, Arrived)])"
    and "initCalls cfg (snd (snd (runSchedule cfg v [0, 0] S [(w, r, Arrived), (w, r, Arrived)])))
           = [(0, initCall cfg)]"
proof -
  have s: "resumeTask cfg v S (w, r, Arrived)
      = (S, (w, r, AwaitingInit), [Validated (requestPath r) True, initCall cfg])"
    by (simp add: start_uninitialized [OF assms(1,2)])
  from resume_init_summary [of cfg v S w r] assms(3)
  obtain e1 where 1: "resumeTask cfg v S (w, r, AwaitingInit)
      = (insert (initKey cfg r) S, (w, r, Finished), e1)"
    and n1: "filter (isInitFetch cfg) e1 = []"
    by auto
  have i: "isInitFetch cfg (initCall cfg)"
    by (simp add: initCall_def)
  have e: "runSchedule cfg v [0, 0] S [(w, r, Arrived), (w, r, Arrived)]
      = (insert (initKey cfg r) S, [(w, r, Finished), (w, r, Arrived)],
         map (Pair 0) [Validated (requestPath r) True, initCall cfg] @ map (Pair 0) e1 @ [])"
    by (simp add: s 1 del: resumeTask.simps)
  show "initKey cfg r \<in> fst (runSchedule cfg v [0, 0] S [(w, r, Arrived), (w, r, Arrived)])"
    unfolding e by simp
  show "initCalls cfg (snd (snd (runSchedule cfg v [0, 0] S [(w, r, Arrived), (w, r, Arrived)])))
           = [(0, initCall cfg)]"
    unfolding e snd_conv initCalls_tagged n1 using i by (simp add: initCalls_def)
qed

text \<open>
  Claim C3, as the code has it. For requests to the stateful-workflow-call route that
  share one key, whatever the order in which their handlers run and are resumed: once
  the key is in the set it stays there and no init call is issued any more; a handler
  that starts then skips the init call and only forwards the original request. A
  handler that starts while the key is not in the set (after an init call that
  failed, or while the init call of another request is awaited) issues the init call
  and is suspended; when the call is answered, the key is added if the answer is a
  success and the set is left as it is if not, and the handler runs to its end without
  another init call. No handler issues the init call more than once. The two parts of
  a handler, run without another handler in between, do what \<open>handleRequest\<close> does.
\<close>

theorem init_skipped_once_initialized:
  assumes "\<forall>(w, r, st)\<in>set tasks. isCallRequest cfg v r \<and> initKey cfg r = k"
  shows "(k \<in> fst (runSchedule cfg v before S tasks) \<longrightarrow>
            k \<in> fst (runSchedule cfg v (before @ later) S tasks)
            \<and> initCalls cfg (snd (snd (runSchedule cfg v (before @ later) S tasks)))
                = initCalls cfg (snd (snd (runSchedule cfg v before S tasks))))
       \<and> length (initCallsOf cfg i (snd (snd (runSchedule cfg v schedule S tasks)))) \<le> 1
       \<and> (\<forall>(w, r, st)\<in>set tasks.
            resumeTask cfg v S (w, r, Arrived) =
              (if k \<in> S then
                 (S, (w, r, Finished),
                  Validated (requestPath r) True
                  # doFetchAndProcess cfg w r (callUrl cfg r) processCaRag)
               else (S, (w, r, AwaitingInit), [Validated (requestPath r) True, initCall cfg]))
            \<and> fst (resumeTask cfg v S (w, r, AwaitingInit))
                = (if initSucceeds cfg w then insert k S else S)
            \<and> fst (snd (resumeTask cfg v S (w, r, AwaitingInit))) = (w, r, Finished)
            \<and> (\<forall>e\<in>set (snd (snd (resumeTask cfg v S (w, r, AwaitingInit)))). \<not> isInitFetch cfg e)
            \<and> (k \<notin> S \<longrightarrow>
                 handleRequest cfg v w S r =
                   (fst (resumeTask cfg v S (w, r, AwaitingInit)),
                    Validated (requestPath r) True # initCall cfg
                    # snd (snd (resumeTask cfg v S (w, r, AwaitingInit))))))"
proof (intro conjI impI)
  assume k: "k \<in> fst (runSchedule cfg v before S tasks)"
  obtain S1 tasks1 trace1 where b: "runSchedule cfg v before S tasks = (S1, tasks1, trace1)"
    by (cases "runSchedule cfg v before S tasks") auto
  from runSchedule_tasks [OF assms, of before S] b
  have t: "\<forall>(w, r, st)\<in>set tasks1. isCallRequest cfg v r \<and> initKey cfg r = k"
    by simp
  from k b have "k \<in> S1"
    by simp
  with t have l: "k \<in> fst (runSchedule cfg v later S1 tasks1)
       \<and> initCalls cfg (snd (snd (runSchedule cfg v later S1 tasks1))) = []"
    by (rule runSchedule_initialized)
  from l b show "k \<in> fst (runSchedule cfg v (before @ later) S tasks)"
    by (auto simp: runSchedule_append split: prod.splits)
  from l b show "initCalls cfg (snd (snd (runSchedule cfg v (before @ later) S tasks)))
                = initCalls cfg (snd (snd (runSchedule cfg v before S tasks)))"
    by (auto simp: runSchedule_append initCalls_def split: prod.splits)
next
  from assms show "length (initCallsOf cfg i (snd (snd (runSchedule cfg v schedule S tasks)))) \<le> 1"
    by (rule init_once_per_request)
next
  show "\<forall>(w, r, st)\<in>set tasks.
            resumeTask cfg v S (w, r, Arrived) =
              (if k \<in> S then
                 (S, (w, r, Finished),
                  Validated (requestPath r) True
                  # doFetchAndProcess cfg w r (callUrl cfg r) processCaRag)
               else (S, (w, r, AwaitingInit), [Validated (requestPath r) True, initCall cfg]))
            \<and> fst (resumeTask cfg v S (w, r, AwaitingInit))
                = (if initSucceeds cfg w then insert k S else S)
            \<and> fst (snd (resumeTask cfg v S (w, r, AwaitingInit))) = (w, r, Finished)
            \<and> (\<forall>e\<in>set (snd (snd (resumeTask cfg v S (w, r, AwaitingInit)))). \<not> isInitFetch cfg e)
            \<and> (k \<notin> S \<longrightarrow>
                 handleRequest cfg v w S r =
                   (fst (resumeTask cfg v S (w, r, AwaitingInit)),
                    Validated (requestPath r) True # initCall cfg
                    # snd (snd (resumeTask cfg v S (w, r, AwaitingInit)))))"
  proof (intro ballI, clarify, intro conjI)
    fix w r st
    assume "(w, r, st) \<in> set tasks"
    with assms have c: "isCallRequest cfg v r" "initKey cfg r = k"
      by auto
    from c show "resumeTask cfg v S (w, r, Arrived) =
              (if k \<in> S then
                 (S, (w, r, Finished),
                  Validated (requestPath r) True
                  # doFetchAndProcess cfg w r (callUrl cfg r) processCaRag)
               else (S, (w, r, AwaitingInit), [Validated (requestPath r) True, initCall cfg]))"
      by (simp add: start_initialized start_uninitialized)
    from c show "fst (resumeTask cfg v S (w, r, AwaitingInit))
                = (if initSucceeds cfg w then insert k S else S)"
      using resumeInit_state [of cfg w S r] by (auto split: prod.splits)
    show "fst (snd (resumeTask cfg v S (w, r, AwaitingInit))) = (w, r, Finished)"
      by (simp split: prod.splits)
    show "\<forall>e\<in>set (snd (snd (resumeTask cfg v S (w, r, AwaitingInit)))). \<not> isInitFetch cfg e"
      using resumeInit_no_init [of _ cfg w S r] by (auto split: prod.splits)
    from c show "k \<notin> S \<longrightarrow>
                 handleRequest cfg v w S r =
                   (fst (resumeTask cfg v S (w, r, AwaitingInit)),
                    Validated (requestPath r) True # initCall cfg
                    # snd (snd (resumeTask cfg v S (w, r, AwaitingInit))))"
      by (auto simp: handle_call resumeInit_after_start split: prod.splits)
  qed
qed

text \<open>
  The theorem at two requests of one conversation whose init call is answered with
  success, the first handled to its end before the second starts: the first issues the
  init call, the second does not.
\<close>

theorem init_skipped_witness:
  \<open>(let cfg = \<lparr>HTTP_PROXY_PATH = js ''/api'', WEBSOCKET_PROXY_PATH = js ''/ws'',
               CORS_ORIGIN = js ''*'', RAG_UUID = js ''123456'',
               UPSTREAM_HTTP_ORIGIN = js ''http://backend:8000''\<rparr>;
        allow = (\<lambda>p. \<lparr>isValid = True, error = Undefined\<rparr>);
        w = \<lparr>fetch = (\<lambda>u m. Response \<lparr>status = 200, traceId = None,
                                        body = Some [js ''{"answer":"hi"}''], bodyError = None\<rparr>),
             wsProxyError = None\<rparr>;
        req = \<lparr>reqMethod = js ''POST'', pathname = Some (js ''/api/call''), search = None,
                conversationId = Some (js ''c1''), bodyFailure = None\<rparr>
    in js ''123456-c1''
         \<in> fst (runSchedule cfg allow ([0, 0] @ [1, 1]) {} [(w, req, Arrived), (w, req, Arrived)])
       \<and> initCalls cfg
            (snd (snd (runSchedule cfg allow ([0, 0] @ [1, 1]) {}
               [(w, req, Arrived), (w, req, Arrived)])))
           = [(0, initCall cfg)])\<close>
proof -
  let ?cfg = "\<lparr>HTTP_PROXY_PATH = js ''/api'', WEBSOCKET_PROXY_PATH = js ''/ws'',
               CORS_ORIGIN = js ''*'', RAG_UUID = js ''123456'',
               UPSTREAM_HTTP_ORIGIN = js ''http://backend:8000''\<rparr>"
  let ?allow = "\<lambda>p::jsstring. \<lparr>isValid = True, error = Undefined\<rparr>"
  let ?res = \<open>\<lparr>status = 200, traceId = None, body = Some [js ''{"answer":"hi"}''],
               bodyError = None\<rparr>\<close>
  let ?w = "\<lparr>fetch = (\<lambda>u m. Response ?res), wsProxyError = None\<rparr>"
  let ?req = "\<lparr>reqMethod = js ''POST'', pathname = Some (js ''/api/call''), search = None,
                conversationId = Some (js ''c1''), bodyFailure = None\<rparr>"
  let ?k = "js ''123456-c1''"
  let ?tasks = "[(?w, ?req, Arrived), (?w, ?req, Arrived)]"
  have c: "isCallRequest ?cfg ?allow ?req"
    by (simp add: isCallRequest_def requestPath_def CHAT_CA_RAG_def js_def)
  have k: "initKey ?cfg ?req = ?k"
    by (simp add: initKey_def js_def)
  have n: "initKey ?cfg ?req \<notin> {}"
    by simp
  have s: "initSucceeds ?cfg ?w"
    by (simp add: initSucceeds_def ok_def)
  have a: "\<forall>(w, r, st)\<in>set ?tasks. isCallRequest ?cfg ?allow r \<and> initKey ?cfg r = ?k"
    using c k by simp
  have m: "?k \<in> fst (runSchedule ?cfg ?allow [0, 0] {} ?tasks)"
    using first_alone(1) [OF c n s] unfolding k .
  note f = first_alone(2) [OF c n s]
  note t = init_skipped_once_initialized [OF a, of "[0, 0]" "{}" "[1, 1]", THEN conjunct1,
      THEN mp, OF m]
  show ?thesis
    unfolding Let_def using t unfolding f .
qed

text \<open>
  The claim as stated fails, in two ways. When the init call is answered 503, two
  requests with the same key, the second starting after the first has ended, issue it
  twice. When the init call is answered 200 and the second request starts while the
  init call of the first is awaited, both issue it, and both calls succeed.
\<close>

theorem init_repeated_counterexample:
  \<open>(let cfg = \<lparr>HTTP_PROXY_PATH = js ''/api'', WEBSOCKET_PROXY_PATH = js ''/ws'',
               CORS_ORIGIN = js ''*'', RAG_UUID = js ''123456'',
               UPSTREAM_HTTP_ORIGIN = js ''http://backend:8000''\<rparr>;
        allow = (\<lambda>p. \<lparr>isValid = True, error = Undefined\<rparr>);
        failing = \<lparr>fetch = (\<lambda>u m. Response \<lparr>status = 503, traceId = None,
                                              body = Some [js ''warming up''], bodyError = None\<rparr>),
                   wsProxyError = None\<rparr>;
        working = \<lparr>fetch = (\<lambda>u m. Response \<lparr>status = 200, traceId = None,
                                              body = Some [js ''{"answer":"hi"}''], bodyError = None\<rparr>),
                   wsProxyError = None\<rparr>;
        req = \<lparr>reqMethod = js ''POST'', pathname = Some (js ''/api/call''), search = None,
                conversationId = Some (js ''c1''), bodyFailure = None\<rparr>
    in initKey cfg req = js ''123456-c1''
       \<and> initCalls cfg
            (snd (snd (runSchedule cfg allow [0, 0, 1, 1] {}
               [(failing, req, Arrived), (failing, req, Arrived)])))
           = [(0, initCall cfg), (1, initCall cfg)]
       \<and> initSucceeds cfg working
       \<and> initCalls cfg
            (snd (snd (runSchedule cfg allow [0, 1, 0, 1] {}
               [(working, req, Arrived), (working, req, Arrived)])))
           = [(0, initCall cfg), (1, initCall cfg)])\<close>
proof -
  let ?cfg = "\<lparr>HTTP_PROXY_PATH = js ''/api'', WEBSOCKET_PROXY_PATH = js ''/ws'',
               CORS_ORIGIN = js ''*'', RAG_UUID = js ''123456'',
               UPSTREAM_HTTP_ORIGIN = js ''http://backend:8000''\<rparr>"
  let ?allow = "\<lambda>p::jsstring. \<lparr>isValid = True, error = Undefined\<rparr>"
  let ?bad = "\<lparr>status = 503, traceId = None, body = Some [js ''warming up''], bodyError = None\<rparr>"
  let ?good = \<open>\<lparr>status = 200, traceId = None, body = Some [js ''{"answer":"hi"}''],
               bodyError = None\<rparr>\<close>
  let ?f = "\<lparr>fetch = (\<lambda>u m. Response ?bad), wsProxyError = None\<rparr>"
  let ?w = "\<lparr>fetch = (\<lambda>u m. Response ?good), wsProxyError = None\<rparr>"
  let ?req = "\<lparr>reqMethod = js ''POST'', pathname = Some (js ''/api/call''), search = None,
                conversationId = Some (js ''c1''), bodyFailure = None\<rparr>"
  have c: "isCallRequest ?cfg ?allow ?req"
    by (simp add: isCallRequest_def requestPath_def CHAT_CA_RAG_def js_def)
  have k: "initKey ?cfg ?req = js ''123456-c1''"
    by (simp add: initKey_def js_def)
  have n: "initKey ?cfg ?req \<notin> {}"
    by simp
  have s: "initSucceeds ?cfg ?w"
    by (simp add: initSucceeds_def ok_def)
  have b: "\<not> initSucceeds ?cfg ?f"
    by (simp add: initSucceeds_def ok_def)
  note 1 = two_after_failure [OF c n b]
  note 2 = two_overlapping [OF c n s]
  from k 1 s 2 show ?thesis
    unfolding Let_def by blast
qed

end
